theory Spec2Isabelle
  imports Main
begin

section \<open>Data model (types.ts)\<close>

text \<open>
  Values produced by \<^verbatim>\<open>JSON.parse\<close>. An object holds its own properties in the order
  in which \<^verbatim>\<open>Object.keys\<close> enumerates them. Numbers are the integral ones; the
  rendering of a fractional number is floating point and is left out of the model.
\<close>

datatype json =
    JNull
  | JBool bool
  | JNum int
  | JStr string
  | JArr "json list"
  | JObj "(string \<times> json) list"

text \<open>
  The interfaces of \<^verbatim>\<open>types.ts\<close>. Field names carry a prefix where two interfaces
  share a name (\<^verbatim>\<open>id\<close>, \<^verbatim>\<open>updatedAt\<close>, ...). A \<^verbatim>\<open>Record<string, string>\<close> is a map
  of its own properties; an optional field is an \<open>option\<close>. Timestamps are the
  readings of \<^verbatim>\<open>Date.now()\<close>, which every operation below takes as the argument
  \<open>now\<close> (the reads made inside one update are taken to fall in the same millisecond).
\<close>

record Column =
  col_id :: string
  col_label :: string

record DynamicRow =
  row_id :: string
  row_values :: "string \<rightharpoonup> string"
  row_updatedAt :: int
  row_comment :: "json option"

datatype FilterMode = Include | Exclude

record ActiveFilter =
  columnId :: string
  flt_value :: string
  mode :: FilterMode

datatype TableType = Classic | Pairwise

record ProjectTable =
  tbl_id :: string
  tbl_name :: string
  tbl_type :: TableType
  columns :: "Column list"
  rows :: "DynamicRow list"
  autoIdEnabled :: "bool option"
  autoIdColumnId :: "string option"
  tbl_createdAt :: int
  tbl_updatedAt :: int

record Folder =
  fld_id :: string
  fld_name :: string
  fld_description :: "string option"
  tables :: "ProjectTable list"
  fld_createdAt :: int
  fld_updatedAt :: int

section \<open>Strings\<close>

text \<open>
  A JavaScript string is modelled as a \<open>string\<close>, a list of 8-bit characters. The white
  space that \<^verbatim>\<open>String.prototype.trim\<close> removes is, within that range, TAB, LF, VT, FF, CR,
  SPACE and NBSP; the white space characters beyond U+00FF do not occur in the model.
\<close>

definition is_space :: "char \<Rightarrow> bool" where
  "is_space c \<longleftrightarrow> c \<in> {CHR 0x09, CHR 0x0A, CHR 0x0B, CHR 0x0C, CHR 0x0D, CHR 0x20, CHR 0xA0}"

definition trim :: "string \<Rightarrow> string" where
  "trim s = rev (dropWhile is_space (rev (dropWhile is_space s)))"

definition lower_char :: "char \<Rightarrow> char" where
  \<comment> \<open>the lower-case mapping of the letters of ASCII and Latin-1: the code unit plus 32,
      that is, with bit 5 set\<close>
  "lower_char c =
     (let n = (of_char c :: nat)
      in if (65 \<le> n \<and> n \<le> 90) \<or> (192 \<le> n \<and> n \<le> 222 \<and> n \<noteq> 215)
         then (case c of Char b0 b1 b2 b3 b4 b5 b6 b7 \<Rightarrow> Char b0 b1 b2 b3 b4 True b6 b7)
         else c)"

definition toLowerCase :: "string \<Rightarrow> string" where
  "toLowerCase s = map lower_char s"

definition normalizeLabel :: "string \<Rightarrow> string" where
  \<comment> \<open>utils/formatting.ts: \<^verbatim>\<open>label.trim().toLowerCase()\<close>\<close>
  "normalizeLabel label = toLowerCase (trim label)"

section \<open>Numbers and their decimal rendering\<close>

text \<open>
  JavaScript numbers are doubles. The numbers of this program (identifiers, indices,
  timestamps) are integers, and the model takes them as mathematical integers: the
  rounding of a double beyond \<open>2^53\<close> is not modelled.
\<close>

definition is_digit :: "char \<Rightarrow> bool" where
  "is_digit c \<longleftrightarrow> c \<in> set ''0123456789''"

definition digit_val :: "char \<Rightarrow> nat" where
  "digit_val c = length (takeWhile (\<lambda>d. d \<noteq> c) ''0123456789'')"

definition digits_val :: "string \<Rightarrow> nat" where
  "digits_val ds = foldl (\<lambda>n c. 10 * n + digit_val c) 0 ds"

function string_of_nat :: "nat \<Rightarrow> string" where
  "string_of_nat n =
     (if n < 10 then [''0123456789'' ! n]
      else string_of_nat (n div 10) @ [''0123456789'' ! (n mod 10)])"
  by pat_completeness auto
termination
  by (relation "measure id") auto

declare string_of_nat.simps [simp del]

definition String_num :: "int \<Rightarrow> string" where
  \<comment> \<open>\<^verbatim>\<open>String(n)\<close> for an integral number\<close>
  "String_num n = (if n < 0 then CHR ''-'' # string_of_nat (nat (- n)) else string_of_nat (nat n))"

definition parseInt :: "string \<Rightarrow> int option" where
  \<comment> \<open>\<^verbatim>\<open>Number.parseInt(s, 10)\<close>: leading white space, an optional sign, the longest
      prefix of decimal digits; \<open>None\<close> is NaN\<close>
  "parseInt s =
     (let t = dropWhile is_space s;
          neg = (t \<noteq> [] \<and> hd t = CHR ''-'');
          u = (if t \<noteq> [] \<and> (hd t = CHR ''-'' \<or> hd t = CHR ''+'') then tl t else t);
          ds = takeWhile is_digit u
      in if ds = [] then None
         else Some (if neg then - int (digits_val ds) else int (digits_val ds)))"

section \<open>Reading a cell\<close>

definition cell_value :: "DynamicRow \<Rightarrow> string \<Rightarrow> string" where
  \<comment> \<open>\<^verbatim>\<open>row.values[colId] || ''\<close>\<close>
  "cell_value row colId = (case row_values row colId of None \<Rightarrow> [] | Some v \<Rightarrow> v)"

section \<open>The mutation choke point (App.tsx, updateActiveTable)\<close>

definition activeFolder :: "string option \<Rightarrow> Folder list \<Rightarrow> Folder option" where
  \<comment> \<open>\<^verbatim>\<open>folders.find(f => f.id === activeFolderId)\<close>\<close>
  "activeFolder activeFolderId folders = find (\<lambda>f. Some (fld_id f) = activeFolderId) folders"

definition activeTable :: "string option \<Rightarrow> string option \<Rightarrow> Folder list \<Rightarrow> ProjectTable option" where
  \<comment> \<open>\<^verbatim>\<open>activeFolder?.tables.find(t => t.id === activeTableId)\<close>\<close>
  "activeTable activeFolderId activeTableId folders =
     (case activeFolder activeFolderId folders of
        None \<Rightarrow> None
      | Some f \<Rightarrow> find (\<lambda>t. Some (tbl_id t) = activeTableId) (tables f))"

definition updateActiveTable ::
  "string option \<Rightarrow> string option \<Rightarrow> int \<Rightarrow> (ProjectTable \<Rightarrow> ProjectTable) \<Rightarrow> Folder list \<Rightarrow> Folder list" where
  "updateActiveTable activeFolderId activeTableId now updater prev =
     map (\<lambda>f. if Some (fld_id f) = activeFolderId
               then f\<lparr>tables := map (\<lambda>t. if Some (tbl_id t) = activeTableId
                                          then (updater t)\<lparr>tbl_updatedAt := now\<rparr>
                                          else t) (tables f),
                      fld_updatedAt := now\<rparr>
               else f) prev"

section \<open>Column deletion (App.tsx, handleDeleteColumn)\<close>

definition deleteColumnUpdater :: "string \<Rightarrow> ProjectTable \<Rightarrow> ProjectTable" where
  "deleteColumnUpdater colId t =
     t\<lparr>autoIdEnabled := (if autoIdColumnId t = Some colId then Some False else autoIdEnabled t),
       autoIdColumnId := (if autoIdColumnId t = Some colId then None else autoIdColumnId t),
       columns := filter (\<lambda>c. col_id c \<noteq> colId) (columns t),
       rows := map (\<lambda>r. r\<lparr>row_values := (row_values r)(colId := None)\<rparr>) (rows t)\<rparr>"

definition handleDeleteColumn ::
  "string option \<Rightarrow> string option \<Rightarrow> int \<Rightarrow> string \<Rightarrow> Folder list \<Rightarrow> Folder list" where
  "handleDeleteColumn activeFolderId activeTableId now colId folders =
     (if (case activeTable activeFolderId activeTableId folders of
            None \<Rightarrow> False
          | Some t \<Rightarrow> autoIdColumnId t = Some colId)
      then folders
      else updateActiveTable activeFolderId activeTableId now (deleteColumnUpdater colId) folders)"

text \<open>
  What the choke point does to one table, the tables it transforms, and the uniqueness of
  identifiers that the data model asks for.
\<close>

definition stamp :: "int \<Rightarrow> (ProjectTable \<Rightarrow> ProjectTable) \<Rightarrow> string option \<Rightarrow> ProjectTable \<Rightarrow> ProjectTable" where
  "stamp now updater activeTableId t =
     (if Some (tbl_id t) = activeTableId then (updater t)\<lparr>tbl_updatedAt := now\<rparr> else t)"

definition touched :: "string option \<Rightarrow> string option \<Rightarrow> Folder list \<Rightarrow> ProjectTable list" where
  "touched activeFolderId activeTableId folders =
     filter (\<lambda>t. Some (tbl_id t) = activeTableId)
       (concat (map tables (filter (\<lambda>f. Some (fld_id f) = activeFolderId) folders)))"

definition unique_ids :: "Folder list \<Rightarrow> bool" where
  "unique_ids folders \<longleftrightarrow>
     distinct (map fld_id folders) \<and> (\<forall>f \<in> set folders. distinct (map tbl_id (tables f)))"

section \<open>Tabular encoding (utils/csv.ts)\<close>

definition dquote :: char where "dquote = CHR 0x22"

definition comma :: char where "comma = CHR '',''"

definition newline :: char where "newline = CHR 0x0A"

definition carriage_return :: char where "carriage_return = CHR 0x0D"

text \<open>
  \<^verbatim>\<open>parseCSV\<close>: the \<^verbatim>\<open>for\<close> loop over the text, with the loop variables \<^verbatim>\<open>inQuotes\<close>,
  \<^verbatim>\<open>cell\<close>, \<^verbatim>\<open>row\<close> and \<^verbatim>\<open>rows\<close> as arguments. \<open>next_char\<close> is \<^verbatim>\<open>text[i + 1]\<close>; the
  extra \<^verbatim>\<open>i += 1\<close> after a doubled quote is the \<open>tl\<close>.
\<close>

definition next_char :: "string \<Rightarrow> char option" where
  "next_char cs = (case cs of [] \<Rightarrow> None | n # _ \<Rightarrow> Some n)"

function scan :: "string \<Rightarrow> bool \<Rightarrow> string \<Rightarrow> string list \<Rightarrow> string list list \<Rightarrow> string list list" where
  "scan [] inQuotes cell row rws = rws @ [row @ [cell]]"
| "scan (c # cs) inQuotes cell row rws =
     (if c = dquote then
        (if inQuotes \<and> next_char cs = Some dquote
         then scan (tl cs) inQuotes (cell @ [dquote]) row rws
         else scan cs (\<not> inQuotes) cell row rws)
      else if c = comma \<and> \<not> inQuotes then scan cs inQuotes [] (row @ [cell]) rws
      else if c = newline \<and> \<not> inQuotes then scan cs inQuotes [] [] (rws @ [row @ [cell]])
      else if c = carriage_return then scan cs inQuotes cell row rws
      else scan cs inQuotes (cell @ [c]) row rws)"
  by pat_completeness auto
termination
  by (relation "measure (\<lambda>(text, _). length text)") auto

definition parseCSV :: "string \<Rightarrow> string list list" where
  "parseCSV text = filter (\<lambda>r. list_ex (\<lambda>c. trim c \<noteq> []) r) (scan text False [] [] [])"

definition escapeCell :: "string \<Rightarrow> string" where
  "escapeCell v =
     (if list_ex (\<lambda>c. c = dquote \<or> c = comma \<or> c = newline) v
      then [dquote] @ concat (map (\<lambda>c. if c = dquote then [dquote, dquote] else [c]) v) @ [dquote]
      else v)"

fun join :: "string \<Rightarrow> string list \<Rightarrow> string" where
  "join sep [] = []"
| "join sep [x] = x"
| "join sep (x # y # ys) = x @ sep @ join sep (y # ys)"

definition stringifyCSV :: "string list list \<Rightarrow> string" where
  "stringifyCSV rws = join [newline] (map (\<lambda>r. join [comma] (map escapeCell r)) rws)"

section \<open>Row generation (App.tsx, handleAddRow)\<close>

subsection \<open>Input validation (utils/validation.ts)\<close>

definition slash :: char where "slash = CHR ''/''"

fun split_acc :: "char \<Rightarrow> string \<Rightarrow> string \<Rightarrow> string list" where
  "split_acc sep cur [] = [cur]"
| "split_acc sep cur (c # cs) =
     (if c = sep then cur # split_acc sep [] cs else split_acc sep (cur @ [c]) cs)"

definition split_on :: "char \<Rightarrow> string \<Rightarrow> string list" where
  \<comment> \<open>\<^verbatim>\<open>s.split(sep)\<close> for a one-character separator: the empty string gives one empty part\<close>
  "split_on sep s = split_acc sep [] s"





subsection \<open>Identifier assignment\<close>

definition idColumnId :: "ProjectTable \<Rightarrow> string option" where
  \<comment> \<open>\<^verbatim>\<open>activeTable.autoIdEnabled ? activeTable.autoIdColumnId : undefined\<close>\<close>
  "idColumnId t = (if autoIdEnabled t = Some True then autoIdColumnId t else None)"

definition hasIdColumn :: "ProjectTable \<Rightarrow> bool" where
  \<comment> \<open>\<^verbatim>\<open>!!idColumnId && activeTable.columns.some(c => c.id === idColumnId)\<close>;
      the empty string is falsy\<close>
  "hasIdColumn t =
     (case idColumnId t of
        None \<Rightarrow> False
      | Some i \<Rightarrow> i \<noteq> [] \<and> list_ex (\<lambda>c. col_id c = i) (columns t))"

definition maxId :: "string \<Rightarrow> DynamicRow list \<Rightarrow> int" where
  \<comment> \<open>the \<^verbatim>\<open>reduce\<close> over the rows, from 0\<close>
  "maxId i rs =
     foldl (\<lambda>mx row. case parseInt (cell_value row i) of
                        None \<Rightarrow> mx
                      | Some num \<Rightarrow> if num > mx then num else mx) 0 rs"

definition nextIdStart :: "ProjectTable \<Rightarrow> int" where
  "nextIdStart t =
     (case idColumnId t of
        None \<Rightarrow> 1
      | Some i \<Rightarrow> if \<not> hasIdColumn t then 1 else maxId i (rows t) + 1)"

definition assign_id :: "ProjectTable \<Rightarrow> nat \<Rightarrow> (string \<rightharpoonup> string) \<Rightarrow> (string \<rightharpoonup> string)" where
  \<comment> \<open>\<^verbatim>\<open>if (hasIdColumn && idColumnId) values[idColumnId] = String(nextIdStart + i)\<close>\<close>
  "assign_id t i vals =
     (case idColumnId t of
        None \<Rightarrow> vals
      | Some c \<Rightarrow> if hasIdColumn t then vals(c \<mapsto> String_num (nextIdStart t + int i)) else vals)"

definition new_row_id :: "int \<Rightarrow> nat \<Rightarrow> string" where
  \<comment> \<open>\<^verbatim>\<open>`row_${now}_${i}`\<close>\<close>
  "new_row_id now i = ''row_'' @ String_num now @ ''_'' @ string_of_nat i"

definition input_of :: "(string \<rightharpoonup> string) \<Rightarrow> string \<Rightarrow> string" where
  \<comment> \<open>\<^verbatim>\<open>newRowValues[col.id] || ''\<close>\<close>
  "input_of newRowValues colId = (case newRowValues colId of None \<Rightarrow> [] | Some v \<Rightarrow> v)"

subsection \<open>Classic mode\<close>

definition classic_parts :: "(string \<rightharpoonup> string) \<Rightarrow> Column \<Rightarrow> string list" where
  \<comment> \<open>\<^verbatim>\<open>val.split('/').map(p => p.trim())\<close>\<close>
  "classic_parts newRowValues col = map trim (split_on slash (input_of newRowValues (col_id col)))"

definition colValuesMap :: "(string \<rightharpoonup> string) \<Rightarrow> Column list \<Rightarrow> (string \<rightharpoonup> string list)" where
  "colValuesMap newRowValues cols =
     foldl (\<lambda>m col. m(col_id col \<mapsto> classic_parts newRowValues col)) Map.empty cols"

definition maxRows :: "(string \<rightharpoonup> string) \<Rightarrow> Column list \<Rightarrow> nat" where
  "maxRows newRowValues cols =
     foldl (\<lambda>mx col. if length (classic_parts newRowValues col) > mx
                      then length (classic_parts newRowValues col) else mx) 0 cols"

definition part_at :: "string list option \<Rightarrow> nat \<Rightarrow> string" where
  \<comment> \<open>\<^verbatim>\<open>colValuesMap[col.id][i] || ''\<close>; every column of the table has an entry in the map\<close>
  "part_at parts i = (case parts of None \<Rightarrow> [] | Some ps \<Rightarrow> if i < length ps then ps ! i else [])"

definition classic_values :: "ProjectTable \<Rightarrow> (string \<rightharpoonup> string) \<Rightarrow> nat \<Rightarrow> (string \<rightharpoonup> string)" where
  "classic_values t newRowValues i =
     assign_id t i
       (foldl (\<lambda>rowValues col.
                 rowValues(col_id col \<mapsto> part_at (colValuesMap newRowValues (columns t) (col_id col)) i))
          Map.empty (columns t))"

definition classicRows :: "ProjectTable \<Rightarrow> (string \<rightharpoonup> string) \<Rightarrow> int \<Rightarrow> DynamicRow list" where
  "classicRows t newRowValues now =
     map (\<lambda>i. \<lparr>row_id = new_row_id now i, row_values = classic_values t newRowValues i,
               row_updatedAt = now, row_comment = None\<rparr>)
       [0 ..< maxRows newRowValues (columns t)]"

subsection \<open>Pairwise mode\<close>

text \<open>
  \<^verbatim>\<open>options\<close> is an object whose keys \<^verbatim>\<open>Object.keys\<close> enumerates: it is an association list
  in insertion order. Assigning to a key that is present replaces its value in place.
  \<^verbatim>\<open>Object.keys\<close> lists the keys that are array indices (canonical decimal numerals below
  \<open>2^32 - 1\<close>) first, in ascending numeric order, and then the other keys in insertion
  order.
\<close>

fun obj_set :: "(string \<times> 'a) list \<Rightarrow> string \<Rightarrow> 'a \<Rightarrow> (string \<times> 'a) list" where
  "obj_set [] k v = [(k, v)]"
| "obj_set (p # ps) k v = (if fst p = k then (k, v) # ps else p # obj_set ps k v)"

definition is_array_index :: "string \<Rightarrow> bool" where
  "is_array_index s \<longleftrightarrow>
     s \<noteq> [] \<and> list_all is_digit s \<and> (s = ''0'' \<or> hd s \<noteq> CHR ''0'') \<and> digits_val s < 4294967295"

definition Object_keys :: "(string \<times> 'a) list \<Rightarrow> string list" where
  "Object_keys obj =
     sort_key digits_val (filter is_array_index (map fst obj))
       @ filter (\<lambda>k. \<not> is_array_index k) (map fst obj)"

definition pairwise_options :: "(string \<rightharpoonup> string) \<Rightarrow> Column \<Rightarrow> string list" where
  \<comment> \<open>\<^verbatim>\<open>val.split('/').map(s => s.trim()).filter(Boolean)\<close>, and \<^verbatim>\<open>['']\<close> when none is left\<close>
  "pairwise_options newRowValues col =
     (let parts = filter (\<lambda>s. s \<noteq> []) (map trim (split_on slash (input_of newRowValues (col_id col))))
      in if length parts > 0 then parts else [[]])"

definition options_of :: "(string \<rightharpoonup> string) \<Rightarrow> Column list \<Rightarrow> (string \<times> string list) list" where
  "options_of newRowValues cols =
     foldl (\<lambda>opts col. obj_set opts (col_id col) (pairwise_options newRowValues col)) [] cols"

record gen_state =
  current :: "string \<rightharpoonup> string"
  combinations :: "(string \<rightharpoonup> string) list"

definition options_at :: "(string \<times> string list) list \<Rightarrow> string \<Rightarrow> string list" where
  \<comment> \<open>\<^verbatim>\<open>options[keys[idx]]\<close>, for a key of \<^verbatim>\<open>options\<close>\<close>
  "options_at opts k = (case map_of opts k of None \<Rightarrow> [] | Some vs \<Rightarrow> vs)"

text \<open>
  \<^verbatim>\<open>generate(idx, current)\<close>. The object \<^verbatim>\<open>current\<close> is shared by all calls and mutated in
  place, and \<^verbatim>\<open>combinations\<close> is the enclosing array: both are threaded through as state.
  \<^verbatim>\<open>generate\<close> is entered at index 0 only, so \<open>idx\<close> never exceeds the number of keys.
\<close>

function generate :: "(string \<times> string list) list \<Rightarrow> string list \<Rightarrow> nat \<Rightarrow> gen_state \<Rightarrow> gen_state" where
  "generate opts keys idx st =
     (if length (combinations st) \<ge> 2000 then st
      else if idx = length keys then st\<lparr>combinations := combinations st @ [current st]\<rparr>
      else if idx < length keys then
        foldl (\<lambda>st' val. generate opts keys (idx + 1) (st'\<lparr>current := (current st')(keys ! idx \<mapsto> val)\<rparr>))
          st (options_at opts (keys ! idx))
      else st)"
  by pat_completeness auto
termination
  by (relation "measure (\<lambda>(opts, keys, idx, st). length keys - idx)") auto

declare generate.simps [simp del]

definition combinations_of :: "(string \<rightharpoonup> string) \<Rightarrow> Column list \<Rightarrow> (string \<rightharpoonup> string) list" where
  "combinations_of newRowValues cols =
     (let opts = options_of newRowValues cols
      in combinations (generate opts (Object_keys opts) 0 \<lparr>current = Map.empty, combinations = []\<rparr>))"

definition pairwiseRows :: "ProjectTable \<Rightarrow> (string \<rightharpoonup> string) \<Rightarrow> int \<Rightarrow> DynamicRow list" where
  "pairwiseRows t newRowValues now =
     map (\<lambda>(i, combo). \<lparr>row_id = new_row_id now i, row_values = assign_id t i combo,
                        row_updatedAt = now, row_comment = None\<rparr>)
       (enumerate 0 (combinations_of newRowValues (columns t)))"

subsection \<open>The handler\<close>

text \<open>
  The new rows are computed from the active table of the current render and prepended by
  the updater. In pairwise mode the work runs in a timer callback 50 ms later; the model
  runs it at once, on the same collection.
\<close>

definition prependRows :: "DynamicRow list \<Rightarrow> ProjectTable \<Rightarrow> ProjectTable" where
  \<comment> \<open>\<^verbatim>\<open>t => ({ ...t, rows: [...newRows, ...t.rows] })\<close>\<close>
  "prependRows newRows t = t\<lparr>rows := newRows @ rows t\<rparr>"


subsection \<open>The product that \<open>generate\<close> enumerates\<close>


section \<open>JSON import (App.tsx, handlePasteJSON and handleImportJSON)\<close>

text \<open>
  The two handlers differ only in where the text comes from; after \<^verbatim>\<open>JSON.parse\<close> their
  bodies are the same, and the model starts from the parsed value. Property access is
  modelled on own properties (for an array and a string also \<^verbatim>\<open>length\<close>); inherited
  methods are not modelled. Reading a property of \<^verbatim>\<open>null\<close> and \<^verbatim>\<open>Object.keys(null)\<close> raise a
  \<^verbatim>\<open>TypeError\<close>, which the handler's \<^verbatim>\<open>catch\<close> turns into an alert without any update:
  such a step is \<open>None\<close>.
\<close>

definition truthy :: "json \<Rightarrow> bool" where
  "truthy v = (case v of JNull \<Rightarrow> False | JBool b \<Rightarrow> b | JNum n \<Rightarrow> n \<noteq> 0
               | JStr s \<Rightarrow> s \<noteq> [] | JArr _ \<Rightarrow> True | JObj _ \<Rightarrow> True)"

definition index_keys :: "nat \<Rightarrow> string list" where
  "index_keys n = map string_of_nat [0 ..< n]"

definition own_props :: "json \<Rightarrow> (string \<times> json) list" where
  \<comment> \<open>the own enumerable properties, as \<^verbatim>\<open>Object.entries\<close> lists them (the value is not \<^verbatim>\<open>null\<close>)\<close>
  "own_props v =
     (case v of
        JObj ps \<Rightarrow> ps
      | JArr xs \<Rightarrow> zip (index_keys (length xs)) xs
      | JStr s \<Rightarrow> zip (index_keys (length s)) (map (\<lambda>c. JStr [c]) s)
      | _ \<Rightarrow> [])"

definition get_prop :: "json \<Rightarrow> string \<Rightarrow> json option" where
  \<comment> \<open>\<^verbatim>\<open>v[k]\<close> for a value that is not \<^verbatim>\<open>null\<close>; \<open>None\<close> is \<^verbatim>\<open>undefined\<close>\<close>
  "get_prop v k =
     (case v of
        JArr xs \<Rightarrow> if k = ''length'' then Some (JNum (int (length xs))) else map_of (own_props v) k
      | JStr s \<Rightarrow> if k = ''length'' then Some (JNum (int (length s))) else map_of (own_props v) k
      | _ \<Rightarrow> map_of (own_props v) k)"

definition is_array :: "json option \<Rightarrow> bool" where
  "is_array v = (case v of Some (JArr _) \<Rightarrow> True | _ \<Rightarrow> False)"

fun js_String :: "json \<Rightarrow> string" where
  "js_String JNull = ''null''"
| "js_String (JBool b) = (if b then ''true'' else ''false'')"
| "js_String (JNum n) = String_num n"
| "js_String (JStr s) = s"
| "js_String (JArr xs) = join '','' (map (\<lambda>x. if x = JNull then [] else js_String x) xs)"
| "js_String (JObj ps) = ''[object Object]''"

definition cell_text :: "json option \<Rightarrow> string" where
  \<comment> \<open>\<^verbatim>\<open>val !== null && val !== undefined ? String(val) : ''\<close>\<close>
  "cell_text v = (case v of None \<Rightarrow> [] | Some JNull \<Rightarrow> [] | Some x \<Rightarrow> js_String x)"

definition new_col_id :: "int \<Rightarrow> nat \<Rightarrow> string" where
  \<comment> \<open>\<^verbatim>\<open>`col_${now}_${idx}`\<close>\<close>
  "new_col_id now idx = ''col_'' @ String_num now @ ''_'' @ string_of_nat idx"

subsection \<open>Native shape\<close>

definition is_native :: "json \<Rightarrow> bool" where
  \<comment> \<open>\<^verbatim>\<open>parsed && Array.isArray(parsed.columns) && Array.isArray(parsed.rows)\<close>\<close>
  "is_native parsed \<longleftrightarrow>
     truthy parsed \<and> is_array (get_prop parsed ''columns'') \<and> is_array (get_prop parsed ''rows'')"

definition array_items :: "json option \<Rightarrow> json list" where
  "array_items v = (case v of Some (JArr xs) \<Rightarrow> xs | _ \<Rightarrow> [])"

definition usable_column :: "json \<Rightarrow> Column option" where
  \<comment> \<open>\<^verbatim>\<open>c && typeof c.id === 'string' && typeof c.label === 'string'\<close>\<close>
  "usable_column c =
     (if \<not> truthy c then None
      else case (get_prop c ''id'', get_prop c ''label'') of
             (Some (JStr i), Some (JStr l)) \<Rightarrow> Some \<lparr>col_id = i, col_label = l\<rparr>
           | _ \<Rightarrow> None)"

definition columnsFromFile :: "json \<Rightarrow> Column list" where
  "columnsFromFile parsed = List.map_filter usable_column (array_items (get_prop parsed ''columns''))"

definition rowsFromFile :: "json \<Rightarrow> json list" where
  \<comment> \<open>\<^verbatim>\<open>parsed.rows.filter(r => r && r.values)\<close>\<close>
  "rowsFromFile parsed =
     filter (\<lambda>r. truthy r \<and> (case get_prop r ''values'' of None \<Rightarrow> False | Some v \<Rightarrow> truthy v))
       (array_items (get_prop parsed ''rows''))"

definition native_values :: "json \<Rightarrow> (string \<rightharpoonup> string)" where
  \<comment> \<open>the \<^verbatim>\<open>forEach\<close> over \<^verbatim>\<open>Object.entries(row.values || {})\<close>\<close>
  "native_values row =
     foldl (\<lambda>vals (key, val). vals(key \<mapsto> cell_text (Some val))) Map.empty
       (case get_prop row ''values'' of None \<Rightarrow> [] | Some v \<Rightarrow> own_props v)"

definition nativeRows :: "ProjectTable \<Rightarrow> int \<Rightarrow> json \<Rightarrow> DynamicRow list" where
  "nativeRows t now parsed =
     map (\<lambda>(rowIdx, row).
            \<lparr>row_id = new_row_id now rowIdx,
             row_values = assign_id t rowIdx (native_values row),
             row_updatedAt = (case get_prop row ''updatedAt'' of Some (JNum n) \<Rightarrow> n | _ \<Rightarrow> now),
             row_comment = get_prop row ''comment''\<rparr>)
       (enumerate 0 (rowsFromFile parsed))"

definition nativeUpdater :: "Column list \<Rightarrow> DynamicRow list \<Rightarrow> ProjectTable \<Rightarrow> ProjectTable" where
  "nativeUpdater fromFile newRows t =
     t\<lparr>columns := columns t @ filter (\<lambda>c. col_id c \<notin> col_id ` set (columns t)) fromFile,
       rows := rows t @ newRows\<rparr>"

subsection \<open>Generic shape\<close>

definition dataArray_of :: "json \<Rightarrow> json list option" where
  "dataArray_of parsed =
     (if parsed = JNull then None
      else if is_array (get_prop parsed ''data'') then Some (array_items (get_prop parsed ''data''))
      else case parsed of
             JArr xs \<Rightarrow> Some xs
           | JObj _ \<Rightarrow> Some [parsed]
           | _ \<Rightarrow> Some [])"

fun add_all :: "string list \<Rightarrow> string list \<Rightarrow> string list" where
  \<comment> \<open>\<^verbatim>\<open>keys.forEach(key => allKeys.add(key))\<close> on a set kept in insertion order\<close>
  "add_all seen [] = seen"
| "add_all seen (k # ks) = add_all (if k \<in> set seen then seen else seen @ [k]) ks"

definition allKeys :: "json list \<Rightarrow> string list" where
  "allKeys dataArray =
     foldl (\<lambda>seen row. case row of
                          JObj _ \<Rightarrow> add_all seen (map fst (own_props row))
                        | JArr _ \<Rightarrow> add_all seen (map fst (own_props row))
                        | _ \<Rightarrow> seen) [] dataArray"

definition newColumns_of :: "int \<Rightarrow> string list \<Rightarrow> Column list" where
  "newColumns_of now colKeys =
     map (\<lambda>(idx, key). \<lparr>col_id = new_col_id now idx, col_label = key\<rparr>) (enumerate 0 colKeys)"

definition expand :: "json \<Rightarrow> json list option" where
  "expand obj =
     (if obj = JNull then None
      else case filter (\<lambda>key. is_array (get_prop obj key)) (map fst (own_props obj)) of
             [] \<Rightarrow> Some [obj]
           | firstArrayKey # _ \<Rightarrow>
               Some (map (\<lambda>val. JObj (obj_set (own_props obj) firstArrayKey val))
                       (array_items (get_prop obj firstArrayKey))))"

fun expandedRows :: "json list \<Rightarrow> json list option" where
  "expandedRows [] = Some []"
| "expandedRows (obj # objs) =
     (case expand obj of
        None \<Rightarrow> None
      | Some rs \<Rightarrow> (case expandedRows objs of None \<Rightarrow> None | Some rest \<Rightarrow> Some (rs @ rest)))"

definition generic_values :: "Column list \<Rightarrow> json \<Rightarrow> (string \<rightharpoonup> string)" where
  \<comment> \<open>\<^verbatim>\<open>colKeys[colKeys.indexOf(col.label)]\<close> is \<^verbatim>\<open>col.label\<close>, a member of \<^verbatim>\<open>colKeys\<close>\<close>
  "generic_values newColumns obj =
     foldl (\<lambda>vals col. vals(col_id col \<mapsto> cell_text (get_prop obj (col_label col)))) Map.empty newColumns"

definition genericRows :: "ProjectTable \<Rightarrow> int \<Rightarrow> Column list \<Rightarrow> json list \<Rightarrow> DynamicRow list" where
  "genericRows t now newColumns expanded =
     map (\<lambda>(rowIdx, obj).
            \<lparr>row_id = new_row_id now rowIdx,
             row_values = assign_id t rowIdx (generic_values newColumns obj),
             row_updatedAt = now, row_comment = None\<rparr>)
       (enumerate 0 expanded)"

definition genericUpdater :: "Column list \<Rightarrow> DynamicRow list \<Rightarrow> ProjectTable \<Rightarrow> ProjectTable" where
  "genericUpdater newColumns newRows t =
     t\<lparr>columns := columns t @
          filter (\<lambda>col. normalizeLabel (col_label col) \<notin> (\<lambda>c. normalizeLabel (col_label c)) ` set (columns t))
            newColumns,
       rows := rows t @ newRows\<rparr>"

subsection \<open>The handler, from the parsed value on\<close>

definition importJSON ::
  "string option \<Rightarrow> string option \<Rightarrow> int \<Rightarrow> json \<Rightarrow> Folder list \<Rightarrow> Folder list" where
  "importJSON activeFolderId activeTableId now parsed folders =
     (case activeTable activeFolderId activeTableId folders of
        None \<Rightarrow> folders
      | Some t \<Rightarrow>
          if is_native parsed then
            (if columnsFromFile parsed = [] then folders
             else updateActiveTable activeFolderId activeTableId now
                    (nativeUpdater (columnsFromFile parsed) (nativeRows t now parsed)) folders)
          else
            (case dataArray_of parsed of
               None \<Rightarrow> folders
             | Some dataArray \<Rightarrow>
                 if dataArray = [] then folders
                 else if allKeys dataArray = [] then folders
                 else (case expandedRows dataArray of
                         None \<Rightarrow> folders
                       | Some expanded \<Rightarrow>
                           updateActiveTable activeFolderId activeTableId now
                             (genericUpdater (newColumns_of now (allKeys dataArray))
                                (genericRows t now (newColumns_of now (allKeys dataArray)) expanded))
                             folders)))"

section \<open>CSV import (App.tsx, handleImportCSV)\<close>

text \<open>
  The model starts from the text that the file reader delivers. The header is trimmed
  before the byte-order mark is removed, and \<^verbatim>\<open>trim\<close> removes that mark with the other
  white space, so the \<^verbatim>\<open>replace\<close> that follows finds nothing: it is left out.
\<close>

definition existingByLabel :: "Column list \<Rightarrow> (string \<rightharpoonup> Column)" where
  \<comment> \<open>\<^verbatim>\<open>new Map(t.columns.map(c => [normalizeLabel(c.label), c]))\<close>: a later column wins\<close>
  "existingByLabel cols = foldl (\<lambda>m c. m(normalizeLabel (col_label c) \<mapsto> c)) Map.empty cols"

record header_state =
  usedExisting :: "string set"
  newColumns :: "Column list"
  addedColumns :: "Column list"
  headerToColId :: "string list"

definition header_step :: "Column list \<Rightarrow> int \<Rightarrow> header_state \<Rightarrow> nat \<times> string \<Rightarrow> header_state" where
  "header_step cols now st h =
     (let idx = fst h; raw = snd h;
          label = (if raw \<noteq> [] then raw else ''Column '' @ string_of_nat (idx + 1));
          norm = normalizeLabel label;
          col = \<lparr>col_id = new_col_id now idx, col_label = label\<rparr>
      in case existingByLabel cols norm of
           Some existing \<Rightarrow>
             if col_id existing \<notin> usedExisting st
             then st\<lparr>usedExisting := insert (col_id existing) (usedExisting st),
                     headerToColId := headerToColId st @ [col_id existing]\<rparr>
             else st\<lparr>newColumns := newColumns st @ [col], addedColumns := addedColumns st @ [col],
                     headerToColId := headerToColId st @ [col_id col]\<rparr>
         | None \<Rightarrow>
             st\<lparr>newColumns := newColumns st @ [col], addedColumns := addedColumns st @ [col],
                headerToColId := headerToColId st @ [col_id col]\<rparr>)"

definition headers_loop :: "Column list \<Rightarrow> int \<Rightarrow> string list \<Rightarrow> header_state" where
  "headers_loop cols now headers =
     foldl (header_step cols now)
       \<lparr>usedExisting = {}, newColumns = cols, addedColumns = [], headerToColId = []\<rparr>
       (enumerate 0 headers)"

definition csv_values :: "header_state \<Rightarrow> string list \<Rightarrow> (string \<rightharpoonup> string)" where
  \<comment> \<open>\<^verbatim>\<open>values[cid] = row[i] ?? ''\<close> for every header, then \<^verbatim>\<open>''\<close> for every column without a value\<close>
  "csv_values st row =
     foldl (\<lambda>vals c. if col_id c \<in> dom vals then vals else vals(col_id c \<mapsto> []))
       (foldl (\<lambda>vals (i, cid). vals(cid \<mapsto> (if i < length row then row ! i else [])))
          Map.empty (enumerate 0 (headerToColId st)))
       (newColumns st)"

definition addedDefaults :: "header_state \<Rightarrow> (string \<rightharpoonup> string)" where
  "addedDefaults st = foldl (\<lambda>m c. m(col_id c \<mapsto> [])) Map.empty (addedColumns st)"

definition csvUpdater ::
  "ProjectTable \<Rightarrow> int \<Rightarrow> string list \<Rightarrow> string list list \<Rightarrow> ProjectTable \<Rightarrow> ProjectTable" where
  \<comment> \<open>\<open>active\<close> is the active table of the render, from which the identifiers are computed\<close>
  "csvUpdater active now headers dataRows t =
     (let st = headers_loop (columns t) now headers;
          newRows = map (\<lambda>(rIdx, row).
                           \<lparr>row_id = new_row_id now rIdx,
                            row_values = assign_id active rIdx (csv_values st row),
                            row_updatedAt = now, row_comment = None\<rparr>)
                      (enumerate 0 dataRows);
          existingRows = map (\<lambda>r. r\<lparr>row_values := addedDefaults st ++ row_values r\<rparr>) (rows t)
      in t\<lparr>columns := newColumns st, rows := existingRows @ newRows\<rparr>)"

definition handleImportCSV ::
  "string option \<Rightarrow> string option \<Rightarrow> int \<Rightarrow> string \<Rightarrow> Folder list \<Rightarrow> Folder list" where
  "handleImportCSV activeFolderId activeTableId now text folders =
     (case activeTable activeFolderId activeTableId folders of
        None \<Rightarrow> folders
      | Some t \<Rightarrow>
          (let rws = parseCSV text in
           if length rws < 2 then folders
           else updateActiveTable activeFolderId activeTableId now
                  (csvUpdater t now (map trim (hd rws))
                     (filter (\<lambda>r. list_ex (\<lambda>c. trim c \<noteq> []) r) (tl rws)))
                  folders))"

section \<open>Table creation and row editing (App.tsx)\<close>

definition newTable :: "int \<Rightarrow> string \<Rightarrow> TableType \<Rightarrow> bool \<Rightarrow> ProjectTable" where
  \<comment> \<open>the table built by \<^verbatim>\<open>createTableInFolder\<close>; \<^verbatim>\<open>INITIAL_COLUMNS\<close> is empty\<close>
  "newTable now name type isAutoIdEnabled =
     \<lparr>tbl_id = ''table_'' @ String_num now, tbl_name = name, tbl_type = type,
      columns = (if isAutoIdEnabled then [\<lparr>col_id = ''col_'' @ String_num now @ ''_id'', col_label = ''ID''\<rparr>]
                 else []),
      rows = [],
      autoIdEnabled = Some isAutoIdEnabled,
      autoIdColumnId = (if isAutoIdEnabled then Some (''col_'' @ String_num now @ ''_id'') else None),
      tbl_createdAt = now, tbl_updatedAt = now\<rparr>"

definition editRowUpdater :: "string \<Rightarrow> (string \<rightharpoonup> string) \<Rightarrow> int \<Rightarrow> ProjectTable \<Rightarrow> ProjectTable" where
  \<comment> \<open>the Save button of the edit dialog:
      \<^verbatim>\<open>r.id === editingRow.id ? { ...r, values: editRowValues, updatedAt: Date.now() } : r\<close>\<close>
  "editRowUpdater rowId editRowValues now t =
     t\<lparr>rows := map (\<lambda>r. if row_id r = rowId
                         then r\<lparr>row_values := editRowValues, row_updatedAt := now\<rparr> else r) (rows t)\<rparr>"

text \<open>
  The invariant of a table: the keys of every row's values are column ids of the table.
\<close>

definition keys_ok :: "ProjectTable \<Rightarrow> bool" where
  "keys_ok t \<longleftrightarrow> (\<forall>r \<in> set (rows t). dom (row_values r) \<subseteq> col_id ` set (columns t))"

text \<open>The invariant of the loop over the CSV header.\<close>

definition header_inv :: "Column list \<Rightarrow> header_state \<Rightarrow> bool" where
  "header_inv cols st \<longleftrightarrow>
     newColumns st = cols @ addedColumns st \<and> set (headerToColId st) \<subseteq> col_id ` set (newColumns st)"

section \<open>Filter toggling (App.tsx, toggleFilter)\<close>

definition same_pair :: "string \<Rightarrow> string \<Rightarrow> ActiveFilter \<Rightarrow> bool" where
  \<comment> \<open>\<^verbatim>\<open>f.columnId === cid && f.value === val\<close>\<close>
  "same_pair cid val f \<longleftrightarrow> columnId f = cid \<and> flt_value f = val"

definition toggleFilter :: "string \<Rightarrow> string \<Rightarrow> ActiveFilter list \<Rightarrow> ActiveFilter list" where
  "toggleFilter cid val prev =
     (case find (same_pair cid val) prev of
        None \<Rightarrow> prev @ [\<lparr>columnId = cid, flt_value = val, mode = Include\<rparr>]
      | Some ex \<Rightarrow>
          if mode ex = Include
          then map (\<lambda>f. if same_pair cid val f then f\<lparr>mode := Exclude\<rparr> else f) prev
          else filter (\<lambda>f. \<not> same_pair cid val f) prev)"

definition removeFilter :: "string \<Rightarrow> string \<Rightarrow> ActiveFilter list \<Rightarrow> ActiveFilter list" where
  "removeFilter colId val prev = filter (\<lambda>f. \<not> same_pair colId val f) prev"

text \<open>The pair of a filter, the invariant of the filter list, and the state of a pair.\<close>

definition filter_pair :: "ActiveFilter \<Rightarrow> string \<times> string" where
  "filter_pair f = (columnId f, flt_value f)"

definition one_per_pair :: "ActiveFilter list \<Rightarrow> bool" where
  "one_per_pair fs \<longleftrightarrow> distinct (map filter_pair fs)"

definition filter_state :: "ActiveFilter list \<Rightarrow> string \<Rightarrow> string \<Rightarrow> FilterMode option" where
  "filter_state fs cid val = map_option mode (find (same_pair cid val) fs)"

section \<open>Column value statistics (App.tsx, columnValueStats; hooks/useColumnStats)\<close>






text \<open>Sample collections for the concrete checks.\<close>

definition folder1 :: Folder where
  "folder1 = \<lparr>fld_id = ''f1'', fld_name = ''Work'', fld_description = None, tables = [],
              fld_createdAt = 1, fld_updatedAt = 1\<rparr>"

definition table1 :: ProjectTable where
  "table1 = \<lparr>tbl_id = ''t1'', tbl_name = ''People'', tbl_type = Classic,
             columns = [\<lparr>col_id = ''col_1_id'', col_label = ''ID''\<rparr>,
                        \<lparr>col_id = ''col_2'', col_label = ''Name''\<rparr>],
             rows = [\<lparr>row_id = ''row_1_0'',
                      row_values = [''col_1_id'' \<mapsto> ''1'', ''col_2'' \<mapsto> ''Ann''],
                      row_updatedAt = 1, row_comment = None\<rparr>],
             autoIdEnabled = Some True, autoIdColumnId = Some ''col_1_id'',
             tbl_createdAt = 1, tbl_updatedAt = 1\<rparr>"

definition folder2 :: Folder where
  "folder2 = \<lparr>fld_id = ''f2'', fld_name = ''Home'', fld_description = None, tables = [table1],
              fld_createdAt = 1, fld_updatedAt = 1\<rparr>"


definition grid1 :: "string list list" where
  "grid1 = [[''a,b'', ''He said '' @ [dquote] @ ''hi'' @ [dquote], ''line1'' @ [newline] @ ''line2''],
            ['''', ''x'']]"




definition tableN :: ProjectTable where
  "tableN = \<lparr>tbl_id = ''t3'', tbl_name = ''Contacts'', tbl_type = Classic,
             columns = [\<lparr>col_id = ''col_5'', col_label = ''Name''\<rparr>],
             rows = [\<lparr>row_id = ''r1'', row_values = [''col_5'' \<mapsto> ''Ann''], row_updatedAt = 1, row_comment = None\<rparr>],
             autoIdEnabled = Some False, autoIdColumnId = None,
             tbl_createdAt = 1, tbl_updatedAt = 1\<rparr>"

definition folderN :: Folder where
  "folderN = \<lparr>fld_id = ''f3'', fld_name = ''Home'', fld_description = None, tables = [tableN],
              fld_createdAt = 1, fld_updatedAt = 1\<rparr>"

definition json1 :: json where
  "json1 = JArr [JObj [(''name'', JStr ''Bob''), (''Age'', JNum 30)]]"

definition json2 :: json where
  "json2 = JObj [(''columns'', JArr [JObj [(''id'', JStr ''col_5''), (''label'', JStr ''Name'')]]),
                 (''rows'', JArr [JObj [(''values'', JObj [(''col_9'', JStr ''x'')])]])]"







definition json3 :: json where
  "json3 = JObj [(''columns'', JArr [JObj [(''id'', JStr ''col_5''), (''label'', JStr ''Name'')],
                                    JObj [(''id'', JStr ''col_9''), (''label'', JStr ''City'')]]),
                 (''rows'', JArr [JObj [(''values'', JObj [(''col_5'', JStr ''Bob''), (''col_9'', JStr ''Rome'')])]])]"

section \<open>Verified properties\<close>

subsection \<open>Tabular encoding\<close>

lemma chars_distinct [simp]:
  "dquote \<noteq> comma" "dquote \<noteq> newline" "dquote \<noteq> carriage_return"
  "comma \<noteq> newline" "comma \<noteq> carriage_return" "newline \<noteq> carriage_return"
  "comma \<noteq> dquote" "newline \<noteq> dquote" "carriage_return \<noteq> dquote"
  "newline \<noteq> comma" "carriage_return \<noteq> comma" "carriage_return \<noteq> newline"
  by (simp_all add: dquote_def comma_def newline_def carriage_return_def)

lemma scan_quoted_body:
  assumes "carriage_return \<notin> set v" "next_char rest \<noteq> Some dquote"
  shows "scan (concat (map (\<lambda>c. if c = dquote then [dquote, dquote] else [c]) v) @ dquote # rest) True cell row rws
           = scan rest False (cell @ v) row rws"
  using assms
proof (induction v arbitrary: cell)
  case Nil
  then show ?case by simp
next
  case (Cons x v)
  then show ?case by (auto simp: next_char_def)
qed

lemma scan_plain:
  assumes "\<forall>c \<in> set v. c \<noteq> dquote \<and> c \<noteq> comma \<and> c \<noteq> newline \<and> c \<noteq> carriage_return"
  shows "scan (v @ rest) False cell row rws = scan rest False (cell @ v) row rws"
  using assms by (induction v arbitrary: cell) auto

lemma scan_cell:
  assumes "carriage_return \<notin> set v" "next_char rest \<noteq> Some dquote"
  shows "scan (escapeCell v @ rest) False [] row rws = scan rest False v row rws"
proof (cases "list_ex (\<lambda>c. c = dquote \<or> c = comma \<or> c = newline) v")
  case True
  then show ?thesis
    using scan_quoted_body [OF assms, of "[]" row rws]
    by (simp add: escapeCell_def)
next
  case False
  then have "\<forall>c \<in> set v. c \<noteq> dquote \<and> c \<noteq> comma \<and> c \<noteq> newline \<and> c \<noteq> carriage_return"
    using assms(1) by (auto simp: list_ex_iff)
  from scan_plain [OF this, of rest "[]" row rws] False show ?thesis
    by (simp add: escapeCell_def)
qed

lemma scan_row:
  assumes "r \<noteq> []" "\<forall>c \<in> set r. carriage_return \<notin> set c" "next_char rest \<noteq> Some dquote"
  shows "scan (join [comma] (map escapeCell r) @ rest) False [] row rws
           = scan rest False (last r) (row @ butlast r) rws"
  using assms
proof (induction r arbitrary: row)
  case Nil
  then show ?case by simp
next
  case (Cons c r)
  show ?case
  proof (cases r)
    case Nil
    then show ?thesis using Cons.prems by (simp add: scan_cell)
  next
    case (Cons d r')
    have "scan (escapeCell c @ comma # join [comma] (map escapeCell r) @ rest) False [] row rws
            = scan (comma # join [comma] (map escapeCell r) @ rest) False c row rws"
      using Cons.prems by (intro scan_cell) (simp_all add: next_char_def)
    also have "\<dots> = scan (join [comma] (map escapeCell r) @ rest) False [] (row @ [c]) rws"
      by simp
    also have "\<dots> = scan rest False (last r) ((row @ [c]) @ butlast r) rws"
      using Cons.prems Cons by (intro Cons.IH) simp_all
    finally show ?thesis using Cons by simp
  qed
qed

lemma scan_rows:
  assumes "g \<noteq> []" "\<forall>r \<in> set g. r \<noteq> []" "\<forall>r \<in> set g. \<forall>c \<in> set r. carriage_return \<notin> set c"
  shows "scan (join [newline] (map (\<lambda>r. join [comma] (map escapeCell r)) g)) False [] [] rws = rws @ g"
  using assms
proof (induction g arbitrary: rws)
  case Nil
  then show ?case by simp
next
  case (Cons r g)
  show ?case
  proof (cases g)
    case Nil
    have "scan (join [comma] (map escapeCell r) @ []) False [] [] rws = scan [] False (last r) ([] @ butlast r) rws"
      using Cons.prems by (intro scan_row) (simp_all add: next_char_def)
    then show ?thesis using Nil Cons.prems by simp
  next
    case (Cons r2 g')
    let ?rest = "newline # join [newline] (map (\<lambda>r. join [comma] (map escapeCell r)) g)"
    have "scan (join [comma] (map escapeCell r) @ ?rest) False [] [] rws
            = scan ?rest False (last r) ([] @ butlast r) rws"
      using Cons.prems by (intro scan_row) (simp_all add: next_char_def)
    also have "\<dots> = scan (join [newline] (map (\<lambda>r. join [comma] (map escapeCell r)) g)) False [] [] (rws @ [r])"
      using Cons.prems by simp
    also have "\<dots> = (rws @ [r]) @ g"
      using Cons.prems Cons by (intro Cons.IH) simp_all
    finally show ?thesis using Cons by simp
  qed
qed

text \<open>
  C3. For every grid in which each row has a cell that is not blank after trimming and
  no cell contains a carriage return, decoding the encoded grid gives the grid back.
\<close>

theorem csv_round_trip:
  assumes "\<forall>r \<in> set g. \<exists>c \<in> set r. trim c \<noteq> []"
    and "\<forall>r \<in> set g. \<forall>c \<in> set r. carriage_return \<notin> set c"
  shows "parseCSV (stringifyCSV g) = g"
proof (cases "g = []")
  case True
  then show ?thesis
    by (simp add: parseCSV_def stringifyCSV_def trim_def)
next
  case False
  have ne: "\<forall>r \<in> set g. r \<noteq> []" using assms(1) by auto
  have "scan (stringifyCSV g) False [] [] [] = [] @ g"
    unfolding stringifyCSV_def using False ne assms(2) by (rule scan_rows)
  moreover have "filter (\<lambda>r. list_ex (\<lambda>c. trim c \<noteq> []) r) g = g"
    using assms(1) by (simp add: list_ex_iff)
  ultimately show ?thesis by (simp add: parseCSV_def)
qed

theorem csv_round_trip_witness:
  "list_all (list_ex (\<lambda>c. trim c \<noteq> [])) grid1
   \<and> list_all (list_all (\<lambda>c. carriage_return \<notin> set c)) grid1
   \<and> parseCSV (stringifyCSV grid1) = grid1"
proof -
  have h1: "\<forall>r \<in> set grid1. \<exists>c \<in> set r. trim c \<noteq> []"
    by (simp add: grid1_def trim_def is_space_def)
  have h2: "\<forall>r \<in> set grid1. \<forall>c \<in> set r. carriage_return \<notin> set c"
    by (simp add: grid1_def dquote_def newline_def carriage_return_def)
  show ?thesis
    using csv_round_trip [OF h1 h2] h1 h2 by (simp add: list_all_iff list_ex_iff)
qed

subsection \<open>Row generation: folds over the columns\<close>















lemma find_map_same:
  assumes "\<And>x. P (g x) = P x"
  shows "find P (map (\<lambda>x. if P x then g x else x) xs) = map_option g (find P xs)"
  using assms by (induction xs) auto

lemma activeTable_update:
  assumes "activeTable a b fs = Some t" "tbl_id (upd t) = tbl_id t"
  shows "activeTable a b (updateActiveTable a b now upd fs) = Some ((upd t)\<lparr>tbl_updatedAt := now\<rparr>)"
proof -
  from assms(1) obtain f where f: "find (\<lambda>f. Some (fld_id f) = a) fs = Some f"
    and t: "find (\<lambda>t. Some (tbl_id t) = b) (tables f) = Some t"
    by (auto simp: activeTable_def activeFolder_def split: option.splits)
  let ?g = "\<lambda>f. f\<lparr>tables := map (\<lambda>t. if Some (tbl_id t) = b then (upd t)\<lparr>tbl_updatedAt := now\<rparr> else t) (tables f),
                   fld_updatedAt := now\<rparr>"
  have 1: "find (\<lambda>f. Some (fld_id f) = a) (map (\<lambda>f. if Some (fld_id f) = a then ?g f else f) fs)
             = map_option ?g (find (\<lambda>f. Some (fld_id f) = a) fs)"
    by (rule find_map_same) simp
  have tb: "Some (tbl_id t) = b" using t by (auto simp: find_Some_iff)
  have 2: "find (\<lambda>t. Some (tbl_id t) = b)
             (map (\<lambda>t. if Some (tbl_id t) = b then (upd t)\<lparr>tbl_updatedAt := now\<rparr> else t) ts)
           = Some ((upd t)\<lparr>tbl_updatedAt := now\<rparr>)"
    if "find (\<lambda>t. Some (tbl_id t) = b) ts = Some t" for ts
    using that tb assms(2) by (induction ts) (auto split: if_splits)
  show ?thesis
    unfolding activeTable_def activeFolder_def updateActiveTable_def 1 f
    using 2 [OF t] by simp
qed


subsection \<open>Row generation: the bounded product\<close>
















subsection \<open>Row generation: the sample tables\<close>






























subsection \<open>Identifier sequencing\<close>



subsection \<open>Classic generation\<close>




subsection \<open>Pairwise generation\<close>




subsection \<open>The keys of the rows: generation, deletion and editing\<close>

lemma foldl_upd_dom:
  "dom (foldl (\<lambda>m c. m(g c \<mapsto> f c)) m0 cs) = dom m0 \<union> g ` set cs"
proof (induction cs arbitrary: m0)
  case Nil
  then show ?case by simp
next
  case (Cons c cs)
  have "dom (foldl (\<lambda>m c. m(g c \<mapsto> f c)) (m0(g c \<mapsto> f c)) cs) = dom (m0(g c \<mapsto> f c)) \<union> g ` set cs"
    by (rule Cons.IH)
  moreover have "foldl (\<lambda>m c. m(g c \<mapsto> f c)) m0 (c # cs) = foldl (\<lambda>m c. m(g c \<mapsto> f c)) (m0(g c \<mapsto> f c)) cs"
    by simp
  moreover have "dom (m0(g c \<mapsto> f c)) \<union> g ` set cs = dom m0 \<union> g ` set (c # cs)"
    by simp
  ultimately show ?case by (simp only:)
qed

lemma hasIdColumn_in_columns:
  assumes "hasIdColumn t" "idColumnId t = Some k"
  shows "k \<in> col_id ` set (columns t)"
  using assms by (auto simp: hasIdColumn_def list_ex_iff)

lemma assign_id_dom: "dom (assign_id t i vals) \<subseteq> dom vals \<union> col_id ` set (columns t)"
proof (cases "idColumnId t")
  case None
  then show ?thesis by (simp add: assign_id_def)
next
  case (Some k)
  show ?thesis
  proof (cases "hasIdColumn t")
    case True
    with Some hasIdColumn_in_columns [OF True Some] show ?thesis
      by (auto simp: assign_id_def)
  next
    case False
    with Some show ?thesis by (simp add: assign_id_def)
  qed
qed

lemma keys_ok_delete:
  assumes "keys_ok t"
  shows "keys_ok (deleteColumnUpdater c t)"
    and "\<forall>r \<in> set (rows (deleteColumnUpdater c t)). c \<notin> dom (row_values r)"
    and "c \<notin> col_id ` set (columns (deleteColumnUpdater c t))"
  using assms by (auto simp: keys_ok_def deleteColumnUpdater_def)

lemma keys_ok_append_rows:
  assumes "keys_ok t" "\<forall>r \<in> set new. dom (row_values r) \<subseteq> col_id ` set (columns t)"
  shows "keys_ok (t\<lparr>rows := new @ rows t\<rparr>)" "keys_ok (t\<lparr>rows := rows t @ new\<rparr>)"
  using assms unfolding keys_ok_def by (simp_all add: ball_Un)

lemma classic_values_dom: "dom (classic_values t nrv i) \<subseteq> col_id ` set (columns t)"
proof -
  have "dom (foldl (\<lambda>rowValues col.
                 rowValues(col_id col \<mapsto> part_at (colValuesMap nrv (columns t) (col_id col)) i))
          Map.empty (columns t)) = col_id ` set (columns t)"
    by (simp add: foldl_upd_dom)
  with assign_id_dom [of t i] show ?thesis
    unfolding classic_values_def by blast
qed

lemma keys_ok_classic:
  assumes "keys_ok t"
  shows "keys_ok (prependRows (classicRows t nrv now) t)"
  unfolding prependRows_def using assms
  by (rule keys_ok_append_rows) (simp add: classicRows_def classic_values_dom)

lemma obj_set_keys: "fst ` set (obj_set ps k v) = insert k (fst ` set ps)"
  by (induction ps) auto

lemma options_of_keys: "fst ` set (options_of nrv cols) = col_id ` set cols"
proof -
  have "fst ` set (foldl (\<lambda>opts col. obj_set opts (col_id col) (pairwise_options nrv col)) ps cols)
          = fst ` set ps \<union> col_id ` set cols" for ps
    by (induction cols arbitrary: ps) (auto simp: obj_set_keys)
  from this [of "[]"] show ?thesis by (simp add: options_of_def)
qed

lemma Object_keys_set: "set (Object_keys obj) = fst ` set obj"
  by (auto simp: Object_keys_def)

lemma generate_dom:
  assumes "set keys \<subseteq> K"
  shows "dom (current st) \<subseteq> K \<Longrightarrow> \<forall>c \<in> set (combinations st). dom c \<subseteq> K \<Longrightarrow>
         dom (current (generate opts keys idx st)) \<subseteq> K
         \<and> (\<forall>c \<in> set (combinations (generate opts keys idx st)). dom c \<subseteq> K)"
proof (induction "length keys - idx" arbitrary: idx st)
  case 0
  then show ?case
    by (subst (1 2) generate.simps) auto
next
  case (Suc n)
  then have lt: "idx < length keys" by simp
  then have kK: "keys ! idx \<in> K" using assms by auto
  let ?step = "\<lambda>st' val. generate opts keys (idx + 1) (st'\<lparr>current := (current st')(keys ! idx \<mapsto> val)\<rparr>)"
  have inner: "dom (current s) \<subseteq> K \<Longrightarrow> \<forall>c \<in> set (combinations s). dom c \<subseteq> K \<Longrightarrow>
        dom (current (foldl ?step s vals)) \<subseteq> K
        \<and> (\<forall>c \<in> set (combinations (foldl ?step s vals)). dom c \<subseteq> K)" for vals s
  proof (induction vals arbitrary: s)
    case Nil
    then show ?case by simp
  next
    case (Cons v vals)
    let ?s0 = "s\<lparr>current := (current s)(keys ! idx \<mapsto> v)\<rparr>"
    have "dom (current (generate opts keys (idx + 1) ?s0)) \<subseteq> K
          \<and> (\<forall>c \<in> set (combinations (generate opts keys (idx + 1) ?s0)). dom c \<subseteq> K)"
      using Suc.hyps(2) lt Cons.prems kK by (intro Suc.hyps(1)) auto
    then have "dom (current (foldl ?step (generate opts keys (idx + 1) ?s0) vals)) \<subseteq> K
        \<and> (\<forall>c \<in> set (combinations (foldl ?step (generate opts keys (idx + 1) ?s0) vals)). dom c \<subseteq> K)"
      by (intro Cons.IH) blast+
    then show ?case by (simp del: fun_upd_apply)
  qed
  show ?case
  proof (cases "length (combinations st) \<ge> 2000")
    case True
    with Suc.prems show ?thesis by (subst (1 2) generate.simps) simp
  next
    case False
    have g: "generate opts keys idx st = foldl ?step st (options_at opts (keys ! idx))"
      using False lt by (subst generate.simps) simp
    show ?thesis unfolding g using Suc.prems by (rule inner)
  qed
qed

lemma combinations_of_dom:
  assumes "c \<in> set (combinations_of nrv cols)"
  shows "dom c \<subseteq> col_id ` set cols"
proof -
  let ?opts = "options_of nrv cols"
  have "set (Object_keys ?opts) \<subseteq> col_id ` set cols"
    by (simp add: Object_keys_set options_of_keys)
  then have "dom (current (generate ?opts (Object_keys ?opts) 0 \<lparr>current = Map.empty, combinations = []\<rparr>)) \<subseteq> col_id ` set cols
     \<and> (\<forall>c \<in> set (combinations (generate ?opts (Object_keys ?opts) 0 \<lparr>current = Map.empty, combinations = []\<rparr>)).
           dom c \<subseteq> col_id ` set cols)"
    by (rule generate_dom) simp_all
  with assms show ?thesis by (simp add: combinations_of_def Let_def)
qed

lemma keys_ok_pairwise:
  assumes "keys_ok t"
  shows "keys_ok (prependRows (pairwiseRows t nrv now) t)"
  unfolding prependRows_def using assms
proof (rule keys_ok_append_rows)
  show "\<forall>r \<in> set (pairwiseRows t nrv now). dom (row_values r) \<subseteq> col_id ` set (columns t)"
  proof
    fix r assume "r \<in> set (pairwiseRows t nrv now)"
    then obtain p where p: "p \<in> set (enumerate 0 (combinations_of nrv (columns t)))"
      and rp: "row_values r = assign_id t (fst p) (snd p)"
      by (auto simp: pairwiseRows_def)
    define i where "i = fst p"
    define c where "c = snd p"
    have c: "c \<in> set (combinations_of nrv (columns t))"
      using p unfolding c_def in_set_enumerate_eq by (metis add_0_right diff_zero nth_mem)
    have r: "row_values r = assign_id t i c" using rp by (simp add: i_def c_def)
    from combinations_of_dom [OF c] assign_id_dom [of t i c] show "dom (row_values r) \<subseteq> col_id ` set (columns t)"
      unfolding r by blast
  qed
qed

lemma keys_ok_edit:
  assumes "keys_ok t" "dom ev \<subseteq> col_id ` set (columns t)"
  shows "keys_ok (editRowUpdater rid ev now t)"
  using assms by (auto simp: keys_ok_def editRowUpdater_def)

lemma keys_ok_newTable: "keys_ok (newTable now name type auto)"
  by (simp add: keys_ok_def newTable_def)

subsection \<open>The keys of the rows: imports\<close>

lemma keys_okI:
  assumes "\<And>r. r \<in> set (rows t) \<Longrightarrow> dom (row_values r) \<subseteq> col_id ` set (columns t)"
  shows "keys_ok t"
  using assms by (simp add: keys_ok_def)

lemma keys_okD:
  assumes "keys_ok t" "r \<in> set (rows t)"
  shows "dom (row_values r) \<subseteq> col_id ` set (columns t)"
  using assms by (simp add: keys_ok_def)

lemma existingByLabel_mem:
  assumes "existingByLabel cols k = Some c"
  shows "c \<in> set cols"
proof -
  have "foldl (\<lambda>m c. m(normalizeLabel (col_label c) \<mapsto> c)) m0 cols k = Some c \<Longrightarrow>
          c \<in> set cols \<or> m0 k = Some c" for m0
  proof (induction cols arbitrary: m0)
    case Nil
    then show ?case by simp
  next
    case (Cons a cols)
    from Cons.prems have "foldl (\<lambda>m c. m(normalizeLabel (col_label c) \<mapsto> c))
        (m0(normalizeLabel (col_label a) \<mapsto> a)) cols k = Some c"
      by (simp only: foldl_Cons)
    then have "c \<in> set cols \<or> (m0(normalizeLabel (col_label a) \<mapsto> a)) k = Some c"
      by (rule Cons.IH)
    then show ?case by (auto split: if_splits)
  qed
  from this [of Map.empty] assms show ?thesis
    by (simp add: existingByLabel_def)
qed

lemma header_step_inv:
  assumes "header_inv cols st"
  shows "header_inv cols (header_step cols now st h)"
proof (cases "existingByLabel cols (normalizeLabel (if snd h \<noteq> [] then snd h else ''Column '' @ string_of_nat (fst h + 1)))")
  case None
  with assms show ?thesis
    by (auto simp: header_inv_def header_step_def Let_def)
next
  case (Some existing)
  then have "existing \<in> set cols" by (rule existingByLabel_mem)
  with Some assms show ?thesis
    by (auto simp: header_inv_def header_step_def Let_def)
qed

lemma headers_loop_inv: "header_inv cols (headers_loop cols now headers)"
proof -
  have "header_inv cols st \<Longrightarrow> header_inv cols (foldl (header_step cols now) st hs)" for st hs
    by (induction hs arbitrary: st) (simp_all add: header_step_inv)
  moreover have "header_inv cols \<lparr>usedExisting = {}, newColumns = cols, addedColumns = [], headerToColId = []\<rparr>"
    by (simp add: header_inv_def)
  ultimately show ?thesis
    unfolding headers_loop_def by blast
qed

lemma foldl_default_dom:
  "dom (foldl (\<lambda>vals c. if col_id c \<in> dom vals then vals else vals(col_id c \<mapsto> v0)) m0 cs)
     = dom m0 \<union> col_id ` set cs"
proof (induction cs arbitrary: m0)
  case Nil
  then show ?case by simp
next
  case (Cons c cs)
  show ?case
  proof (cases "col_id c \<in> dom m0")
    case True
    then have "dom m0 \<union> col_id ` set (c # cs) = dom m0 \<union> col_id ` set cs" by auto
    with True Cons.IH [of m0] show ?thesis by (simp del: fun_upd_apply)
  next
    case False
    have "dom (m0(col_id c \<mapsto> v0)) \<union> col_id ` set cs = dom m0 \<union> col_id ` set (c # cs)" by simp
    with False Cons.IH [of "m0(col_id c \<mapsto> v0)"] show ?thesis by (simp del: fun_upd_apply)
  qed
qed

lemma csv_values_dom:
  "dom (csv_values st row) = set (headerToColId st) \<union> col_id ` set (newColumns st)"
proof -
  have e: "(\<lambda>vals (i, cid). vals(cid \<mapsto> (if i < length row then row ! i else [])))
         = (\<lambda>vals p. vals(snd p \<mapsto> (if fst p < length row then row ! fst p else [])))"
    by (simp add: fun_eq_iff split: prod.splits)
  have "dom (foldl (\<lambda>vals (i, cid). vals(cid \<mapsto> (if i < length row then row ! i else [])))
          Map.empty (enumerate 0 (headerToColId st))) = set (headerToColId st)"
    unfolding e foldl_upd_dom by (simp add: image_image [symmetric] del: image_image)
       (metis list.set_map map_snd_enumerate)
  then show ?thesis
    by (simp add: csv_values_def foldl_default_dom)
qed

lemma addedDefaults_dom: "dom (addedDefaults st) = col_id ` set (addedColumns st)"
  by (simp add: addedDefaults_def foldl_upd_dom)

lemma keys_ok_csv:
  assumes "keys_ok t"
  shows "keys_ok (csvUpdater t now headers dataRows t)"
proof -
  let ?st = "headers_loop (columns t) now headers"
  have inv: "header_inv (columns t) ?st" by (rule headers_loop_inv)
  then have nc: "col_id ` set (newColumns ?st) = col_id ` set (columns t) \<union> col_id ` set (addedColumns ?st)"
    and h: "set (headerToColId ?st) \<subseteq> col_id ` set (newColumns ?st)"
    by (auto simp: header_inv_def)
  have new: "dom (assign_id t i (csv_values ?st row)) \<subseteq> col_id ` set (newColumns ?st)" for i row
    using assign_id_dom [of t i "csv_values ?st row"] h unfolding csv_values_dom nc by blast
  have old: "dom (addedDefaults ?st ++ row_values r) \<subseteq> col_id ` set (newColumns ?st)"
    if "r \<in> set (rows t)" for r
    using keys_okD [OF assms that] unfolding nc dom_map_add addedDefaults_dom by blast
  show ?thesis
  proof (rule keys_okI)
    fix r assume "r \<in> set (rows (csvUpdater t now headers dataRows t))"
    then consider (old) r0 where "r0 \<in> set (rows t)" "row_values r = addedDefaults ?st ++ row_values r0"
      | (new) p where "row_values r = assign_id t (fst p) (csv_values ?st (snd p))"
      by (auto simp: csvUpdater_def Let_def)
    then show "dom (row_values r) \<subseteq> col_id ` set (columns (csvUpdater t now headers dataRows t))"
    proof cases
      case old
      with old(1) [THEN \<open>\<And>r. r \<in> set (rows t) \<Longrightarrow> dom (addedDefaults ?st ++ row_values r) \<subseteq> col_id ` set (newColumns ?st)\<close>]
      show ?thesis by (simp add: csvUpdater_def Let_def del: dom_map_add)
    next
      case new
      with \<open>\<And>i row. dom (assign_id t i (csv_values ?st row)) \<subseteq> col_id ` set (newColumns ?st)\<close> [of "fst p" "snd p"]
      show ?thesis by (simp add: csvUpdater_def Let_def)
    qed
  qed
qed

lemma keys_ok_native:
  assumes "keys_ok t"
    and "\<forall>row \<in> set (rowsFromFile parsed).
           dom (native_values row) \<subseteq> col_id ` set (columns t) \<union> col_id ` set (columnsFromFile parsed)"
  shows "keys_ok (nativeUpdater (columnsFromFile parsed) (nativeRows t now parsed) t)"
proof -
  let ?cols = "columns t @ filter (\<lambda>c. col_id c \<notin> col_id ` set (columns t)) (columnsFromFile parsed)"
  have ids: "col_id ` set ?cols = col_id ` set (columns t) \<union> col_id ` set (columnsFromFile parsed)"
    by auto
  have new: "dom (row_values r) \<subseteq> col_id ` set ?cols" if "r \<in> set (nativeRows t now parsed)" for r
  proof -
    from that obtain p where p: "p \<in> set (enumerate 0 (rowsFromFile parsed))"
      and r: "row_values r = assign_id t (fst p) (native_values (snd p))"
      by (auto simp: nativeRows_def)
    have "snd p \<in> set (rowsFromFile parsed)"
      using p unfolding in_set_enumerate_eq by (metis add_0_right diff_zero nth_mem)
    with assms(2) have "dom (native_values (snd p)) \<subseteq> col_id ` set (columns t) \<union> col_id ` set (columnsFromFile parsed)"
      by blast
    with assign_id_dom [of t "fst p" "native_values (snd p)"] show ?thesis
      unfolding r ids by blast
  qed
  have old: "dom (row_values r) \<subseteq> col_id ` set ?cols" if "r \<in> set (rows t)" for r
    using keys_okD [OF assms(1) that] unfolding ids by blast
  show ?thesis
  proof (rule keys_okI)
    fix r assume "r \<in> set (rows (nativeUpdater (columnsFromFile parsed) (nativeRows t now parsed) t))"
    then have "r \<in> set (rows t) \<or> r \<in> set (nativeRows t now parsed)"
      by (auto simp: nativeUpdater_def)
    with new old have "dom (row_values r) \<subseteq> col_id ` set ?cols" by blast
    then show "dom (row_values r)
        \<subseteq> col_id ` set (columns (nativeUpdater (columnsFromFile parsed) (nativeRows t now parsed) t))"
      by (simp add: nativeUpdater_def)
  qed
qed

lemma generic_values_dom: "dom (generic_values newCols obj) = col_id ` set newCols"
  by (simp add: generic_values_def foldl_upd_dom)

lemma keys_ok_generic:
  assumes "keys_ok t"
    and "\<forall>col \<in> set newCols.
           normalizeLabel (col_label col) \<notin> (\<lambda>c. normalizeLabel (col_label c)) ` set (columns t)"
  shows "keys_ok (genericUpdater newCols (genericRows t now newCols expanded) t)"
proof -
  have f: "filter (\<lambda>col. normalizeLabel (col_label col) \<notin> (\<lambda>c. normalizeLabel (col_label c)) ` set (columns t)) newCols
             = newCols"
    using assms(2) by (simp add: filter_id_conv)
  have new: "dom (row_values r) \<subseteq> col_id ` set (columns t @ newCols)"
    if "r \<in> set (genericRows t now newCols expanded)" for r
  proof -
    from that obtain p where r: "row_values r = assign_id t (fst p) (generic_values newCols (snd p))"
      by (auto simp: genericRows_def)
    from assign_id_dom [of t "fst p" "generic_values newCols (snd p)"] show ?thesis
      unfolding r generic_values_dom by auto
  qed
  have old: "dom (row_values r) \<subseteq> col_id ` set (columns t @ newCols)" if "r \<in> set (rows t)" for r
    using keys_okD [OF assms(1) that] by auto
  show ?thesis
  proof (rule keys_okI)
    fix r assume "r \<in> set (rows (genericUpdater newCols (genericRows t now newCols expanded) t))"
    then have "r \<in> set (rows t) \<or> r \<in> set (genericRows t now newCols expanded)"
      by (auto simp: genericUpdater_def)
    with new old have "dom (row_values r) \<subseteq> col_id ` set (columns t @ newCols)" by blast
    then show "dom (row_values r)
        \<subseteq> col_id ` set (columns (genericUpdater newCols (genericRows t now newCols expanded) t))"
      by (simp add: genericUpdater_def f)
  qed
qed

subsection \<open>Imports on a sample table\<close>

lemma keys_ok_stamp: "keys_ok (u\<lparr>tbl_updatedAt := n\<rparr>) = keys_ok u"
  by (simp add: keys_ok_def)

lemma tableN_active: "activeTable (Some ''f3'') (Some ''t3'') [folderN] = Some tableN"
  by (simp add: activeTable_def activeFolder_def folderN_def tableN_def)

lemma tableN_keys_ok: "keys_ok tableN"
  by (simp add: keys_ok_def tableN_def)

lemma tableN_no_id: "\<not> hasIdColumn tableN" "idColumnId tableN = None"
  by (simp_all add: hasIdColumn_def idColumnId_def tableN_def)

lemma lower_name: "normalizeLabel ''name'' = ''name''" "normalizeLabel ''Name'' = ''name''"
  "normalizeLabel ''Age'' = ''age''"
  by (simp_all add: normalizeLabel_def toLowerCase_def lower_char_def trim_def is_space_def)

lemma json1_keys: "allKeys [JObj [(''name'', JStr ''Bob''), (''Age'', JNum 30)]] = [''name'', ''Age'']"
  by (simp add: allKeys_def own_props_def)

lemma json1_cols: "newColumns_of 1700 [''name'', ''Age''] =
   [\<lparr>col_id = ''col_1700_0'', col_label = ''name''\<rparr>, \<lparr>col_id = ''col_1700_1'', col_label = ''Age''\<rparr>]"
  by (simp add: newColumns_of_def new_col_id_def String_num_def string_of_nat.simps enumerate_eq_zip upt_rec)

lemma json1_expanded: "expandedRows [JObj [(''name'', JStr ''Bob''), (''Age'', JNum 30)]]
    = Some [JObj [(''name'', JStr ''Bob''), (''Age'', JNum 30)]]"
  by (simp add: expand_def own_props_def get_prop_def is_array_def)

lemma json1_rows:
  "genericRows tableN 1700
     [\<lparr>col_id = ''col_1700_0'', col_label = ''name''\<rparr>, \<lparr>col_id = ''col_1700_1'', col_label = ''Age''\<rparr>]
     [JObj [(''name'', JStr ''Bob''), (''Age'', JNum 30)]]
   = [\<lparr>row_id = ''row_1700_0'', row_values = [''col_1700_0'' \<mapsto> ''Bob'', ''col_1700_1'' \<mapsto> ''30''],
        row_updatedAt = 1700, row_comment = None\<rparr>]"
  by (simp add: genericRows_def generic_values_def assign_id_def tableN_no_id new_row_id_def
      String_num_def string_of_nat.simps get_prop_def own_props_def cell_text_def enumerate_eq_zip)

text \<open>
  C1, on the code. A generic-shape import of \<^verbatim>\<open>[{"name": "Bob", "Age": 30}]\<close> into a table
  whose only column is \<open>col_5\<close>, labelled \<open>Name\<close>: no column is created for the key
  \<^verbatim>\<open>name\<close>, whose normalized label is that of \<open>col_5\<close>, a column is created for \<^verbatim>\<open>Age\<close>, and
  the new row comes after the existing row. But the new row holds \<open>Bob\<close> under
  \<open>col_1700_0\<close>, the id made for the key before the labels are compared, which is not a
  column of the table, and it holds nothing under \<open>col_5\<close>: the value does not land in the
  existing column.
\<close>

theorem generic_import_matching_label:
  "activeTable (Some ''f3'') (Some ''t3'') (importJSON (Some ''f3'') (Some ''t3'') 1700 json1 [folderN])
     = Some (tableN\<lparr>columns := [\<lparr>col_id = ''col_5'', col_label = ''Name''\<rparr>,
                                 \<lparr>col_id = ''col_1700_1'', col_label = ''Age''\<rparr>],
                     rows := rows tableN @
                       [\<lparr>row_id = ''row_1700_0'',
                         row_values = [''col_1700_0'' \<mapsto> ''Bob'', ''col_1700_1'' \<mapsto> ''30''],
                         row_updatedAt = 1700, row_comment = None\<rparr>],
                     tbl_updatedAt := 1700\<rparr>)"
proof -
  have n: "\<not> is_native json1"
    by (simp add: is_native_def json1_def get_prop_def own_props_def is_array_def index_keys_def)
  have d: "dataArray_of json1 = Some [JObj [(''name'', JStr ''Bob''), (''Age'', JNum 30)]]"
    by (simp add: dataArray_of_def json1_def get_prop_def own_props_def is_array_def index_keys_def)
  have u: "genericUpdater
        [\<lparr>col_id = ''col_1700_0'', col_label = ''name''\<rparr>, \<lparr>col_id = ''col_1700_1'', col_label = ''Age''\<rparr>]
        newRows tableN
      = tableN\<lparr>columns := [\<lparr>col_id = ''col_5'', col_label = ''Name''\<rparr>,
                                 \<lparr>col_id = ''col_1700_1'', col_label = ''Age''\<rparr>],
                rows := rows tableN @ newRows\<rparr>" for newRows
    by (simp add: genericUpdater_def tableN_def lower_name)
  have i: "importJSON (Some ''f3'') (Some ''t3'') 1700 json1 [folderN]
      = updateActiveTable (Some ''f3'') (Some ''t3'') 1700
          (genericUpdater
             [\<lparr>col_id = ''col_1700_0'', col_label = ''name''\<rparr>, \<lparr>col_id = ''col_1700_1'', col_label = ''Age''\<rparr>]
             [\<lparr>row_id = ''row_1700_0'', row_values = [''col_1700_0'' \<mapsto> ''Bob'', ''col_1700_1'' \<mapsto> ''30''],
               row_updatedAt = 1700, row_comment = None\<rparr>]) [folderN]"
    by (simp add: importJSON_def tableN_active n d json1_keys json1_cols json1_expanded json1_rows
        del: expandedRows.simps)
  have k: "tbl_id (genericUpdater newCols newRows tableN) = tbl_id tableN" for newCols newRows
    by (simp add: genericUpdater_def)
  show ?thesis
    unfolding i
    by (subst activeTable_update [where t = tableN]) (simp_all add: tableN_active k u)
qed

lemma json3_columns: "columnsFromFile json3 =
    [\<lparr>col_id = ''col_5'', col_label = ''Name''\<rparr>, \<lparr>col_id = ''col_9'', col_label = ''City''\<rparr>]"
  by (simp add: columnsFromFile_def json3_def get_prop_def own_props_def array_items_def
      usable_column_def truthy_def List.map_filter_simps)

lemma json3_rows: "rowsFromFile json3 = [JObj [(''values'', JObj [(''col_5'', JStr ''Bob''), (''col_9'', JStr ''Rome'')])]]"
  by (simp add: rowsFromFile_def json3_def get_prop_def own_props_def array_items_def truthy_def)

lemma json3_keys:
  "\<forall>row \<in> set (rowsFromFile json3).
     dom (native_values row) \<subseteq> col_id ` set (columns tableN) \<union> col_id ` set (columnsFromFile json3)"
  by (simp add: json3_rows json3_columns native_values_def get_prop_def own_props_def)

lemma city_fresh:
  "\<forall>col \<in> set [\<lparr>col_id = ''col_1700_0'', col_label = ''City''\<rparr>].
     normalizeLabel (col_label col) \<notin> (\<lambda>c. normalizeLabel (col_label c)) ` set (columns tableN)"
  by (simp add: tableN_def normalizeLabel_def toLowerCase_def lower_char_def trim_def is_space_def)

text \<open>
  C2, as amended. A new table satisfies the invariant that the keys of every row's values
  are column ids of the table, and the invariant is kept by column deletion (which also
  removes the deleted column's key from every row, in the same update), by classic and
  pairwise generation, by the edit of a row whose edited values have column ids as keys,
  by CSV import, by a native-shape JSON import whose imported rows have keys among the
  ids of the table's columns and of the usable imported columns, and by a generic-shape
  JSON import none of whose keys normalizes to the label of an existing column. The
  timestamp that the choke point sets does not touch the invariant.
\<close>

theorem values_keys_invariant:
  assumes "keys_ok t"
  shows "keys_ok (deleteColumnUpdater c t)
       \<and> (\<forall>r \<in> set (rows (deleteColumnUpdater c t)). c \<notin> dom (row_values r))
       \<and> c \<notin> col_id ` set (columns (deleteColumnUpdater c t))
       \<and> keys_ok (prependRows (classicRows t nrv now) t)
       \<and> keys_ok (prependRows (pairwiseRows t nrv now) t)
       \<and> (dom ev \<subseteq> col_id ` set (columns t) \<longrightarrow> keys_ok (editRowUpdater rid ev now t))
       \<and> keys_ok (csvUpdater t now headers dataRows t)
       \<and> ((\<forall>row \<in> set (rowsFromFile parsed).
              dom (native_values row) \<subseteq> col_id ` set (columns t) \<union> col_id ` set (columnsFromFile parsed))
            \<longrightarrow> keys_ok (nativeUpdater (columnsFromFile parsed) (nativeRows t now parsed) t))
       \<and> ((\<forall>col \<in> set newCols.
              normalizeLabel (col_label col) \<notin> (\<lambda>c. normalizeLabel (col_label c)) ` set (columns t))
            \<longrightarrow> keys_ok (genericUpdater newCols (genericRows t now newCols expanded) t))
       \<and> keys_ok (newTable now name type auto)
       \<and> (\<forall>u. keys_ok (u\<lparr>tbl_updatedAt := now\<rparr>) = keys_ok u)"
  using keys_ok_delete [OF assms, of c] keys_ok_classic [OF assms, of nrv now]
    keys_ok_pairwise [OF assms, of nrv now] keys_ok_edit [OF assms, of ev rid now]
    keys_ok_csv [OF assms, of now headers dataRows] keys_ok_native [OF assms, of parsed now]
    keys_ok_generic [OF assms, of newCols now expanded] keys_ok_newTable [of now name type auto]
    keys_ok_stamp [where n = now]
  by blast

theorem values_keys_invariant_witness:
  "keys_ok tableN
   \<and> keys_ok (deleteColumnUpdater ''col_5'' tableN)
   \<and> columns (deleteColumnUpdater ''col_5'' tableN) = []
   \<and> map row_values (rows (deleteColumnUpdater ''col_5'' tableN)) = [Map.empty]
   \<and> keys_ok (prependRows (classicRows tableN [''col_5'' \<mapsto> ''Bob/Eve''] 1700) tableN)
   \<and> keys_ok (prependRows (pairwiseRows tableN [''col_5'' \<mapsto> ''Bob/Eve''] 1700) tableN)
   \<and> dom [''col_5'' \<mapsto> ''Anna''] \<subseteq> col_id ` set (columns tableN)
   \<and> keys_ok (editRowUpdater ''r1'' [''col_5'' \<mapsto> ''Anna''] 1700 tableN)
   \<and> keys_ok (csvUpdater tableN 1700 [''name'', ''City''] [[''Bob'', ''Rome'']] tableN)
   \<and> list_all (\<lambda>row. dom (native_values row)
          \<subseteq> col_id ` set (columns tableN) \<union> col_id ` set (columnsFromFile json3)) (rowsFromFile json3)
   \<and> keys_ok (nativeUpdater (columnsFromFile json3) (nativeRows tableN 1700 json3) tableN)
   \<and> normalizeLabel ''City'' \<notin> set (map (\<lambda>c. normalizeLabel (col_label c)) (columns tableN))
   \<and> keys_ok (genericUpdater [\<lparr>col_id = ''col_1700_0'', col_label = ''City''\<rparr>]
         (genericRows tableN 1700 [\<lparr>col_id = ''col_1700_0'', col_label = ''City''\<rparr>]
            [JObj [(''City'', JStr ''Rome'')]]) tableN)"
proof -
  have d: "columns (deleteColumnUpdater ''col_5'' tableN) = []"
    "map row_values (rows (deleteColumnUpdater ''col_5'' tableN)) = [Map.empty]"
    by (simp_all add: deleteColumnUpdater_def tableN_def)
  have e: "dom [''col_5'' \<mapsto> ''Anna''] \<subseteq> col_id ` set (columns tableN)"
    by (simp add: tableN_def)
  have k: "list_all (\<lambda>row. dom (native_values row)
          \<subseteq> col_id ` set (columns tableN) \<union> col_id ` set (columnsFromFile json3)) (rowsFromFile json3)"
    using json3_keys by (simp add: list_all_iff)
  have f: "normalizeLabel ''City'' \<notin> set (map (\<lambda>c. normalizeLabel (col_label c)) (columns tableN))"
    using city_fresh by simp
  note T = values_keys_invariant [OF tableN_keys_ok, where c = "''col_5''"
        and nrv = "[''col_5'' \<mapsto> ''Bob/Eve'']" and now = 1700
        and ev = "[''col_5'' \<mapsto> ''Anna'']" and rid = "''r1''"
        and headers = "[''name'', ''City'']" and dataRows = "[[''Bob'', ''Rome'']]"
        and parsed = json3 and newCols = "[\<lparr>col_id = ''col_1700_0'', col_label = ''City''\<rparr>]"
        and expanded = "[JObj [(''City'', JStr ''Rome'')]]"]
  from T e json3_keys city_fresh
  have "keys_ok (deleteColumnUpdater ''col_5'' tableN)"
    "keys_ok (prependRows (classicRows tableN [''col_5'' \<mapsto> ''Bob/Eve''] 1700) tableN)"
    "keys_ok (prependRows (pairwiseRows tableN [''col_5'' \<mapsto> ''Bob/Eve''] 1700) tableN)"
    "keys_ok (editRowUpdater ''r1'' [''col_5'' \<mapsto> ''Anna''] 1700 tableN)"
    "keys_ok (csvUpdater tableN 1700 [''name'', ''City''] [[''Bob'', ''Rome'']] tableN)"
    "keys_ok (nativeUpdater (columnsFromFile json3) (nativeRows tableN 1700 json3) tableN)"
    "keys_ok (genericUpdater [\<lparr>col_id = ''col_1700_0'', col_label = ''City''\<rparr>]
         (genericRows tableN 1700 [\<lparr>col_id = ''col_1700_0'', col_label = ''City''\<rparr>]
            [JObj [(''City'', JStr ''Rome'')]]) tableN)"
    by blast+
  with tableN_keys_ok d e k f show ?thesis by blast
qed

text \<open>
  The statement for every JSON import fails: a native-shape import copies the keys of an
  imported row as they are, here \<open>col_9\<close>, which is neither a column of the table nor
  one of the imported columns.
\<close>

theorem values_keys_invariant_counterexample:
  "activeTable (Some ''f3'') (Some ''t3'') [folderN] = Some tableN
   \<and> keys_ok tableN
   \<and> is_native json2
   \<and> map_option keys_ok
        (activeTable (Some ''f3'') (Some ''t3'') (importJSON (Some ''f3'') (Some ''t3'') 1700 json2 [folderN]))
       = Some False"
proof -
  have n: "is_native json2"
    by (simp add: is_native_def json2_def get_prop_def own_props_def is_array_def truthy_def)
  have c: "columnsFromFile json2 = [\<lparr>col_id = ''col_5'', col_label = ''Name''\<rparr>]"
    by (simp add: columnsFromFile_def json2_def get_prop_def own_props_def array_items_def
        usable_column_def truthy_def List.map_filter_simps)
  have r: "rowsFromFile json2 = [JObj [(''values'', JObj [(''col_9'', JStr ''x'')])]]"
    by (simp add: rowsFromFile_def json2_def get_prop_def own_props_def array_items_def truthy_def)
  have v: "row_values (nativeRows tableN 1700 json2 ! 0) ''col_9'' = Some ''x''"
    by (simp add: nativeRows_def r native_values_def get_prop_def own_props_def cell_text_def
        assign_id_def tableN_no_id enumerate_eq_zip)
  have l: "length (nativeRows tableN 1700 json2) = 1"
    by (simp add: nativeRows_def r)
  have "\<not> keys_ok (nativeUpdater (columnsFromFile json2) (nativeRows tableN 1700 json2) tableN)"
  proof
    assume "keys_ok (nativeUpdater (columnsFromFile json2) (nativeRows tableN 1700 json2) tableN)"
    moreover have "nativeRows tableN 1700 json2 ! 0
        \<in> set (rows (nativeUpdater (columnsFromFile json2) (nativeRows tableN 1700 json2) tableN))"
      using l by (simp add: nativeUpdater_def)
    ultimately have "dom (row_values (nativeRows tableN 1700 json2 ! 0))
        \<subseteq> col_id ` set (columns (nativeUpdater (columnsFromFile json2) (nativeRows tableN 1700 json2) tableN))"
      by (rule keys_okD)
    with v have "''col_9'' \<in> col_id ` set (columns (nativeUpdater (columnsFromFile json2) (nativeRows tableN 1700 json2) tableN))"
      by blast
    then show False by (simp add: nativeUpdater_def c tableN_def)
  qed
  moreover have "tbl_id (nativeUpdater (columnsFromFile json2) (nativeRows tableN 1700 json2) tableN) = tbl_id tableN"
    by (simp add: nativeUpdater_def)
  ultimately have "map_option keys_ok
        (activeTable (Some ''f3'') (Some ''t3'')
           (updateActiveTable (Some ''f3'') (Some ''t3'') 1700
              (nativeUpdater (columnsFromFile json2) (nativeRows tableN 1700 json2)) [folderN]))
       = Some False"
    by (subst activeTable_update [where t = tableN]) (simp_all add: tableN_active keys_ok_stamp)
  moreover have "importJSON (Some ''f3'') (Some ''t3'') 1700 json2 [folderN]
      = updateActiveTable (Some ''f3'') (Some ''t3'') 1700
              (nativeUpdater (columnsFromFile json2) (nativeRows tableN 1700 json2)) [folderN]"
    using n c by (simp add: importJSON_def tableN_active)
  ultimately show ?thesis
    using tableN_active tableN_keys_ok n by simp
qed

subsection \<open>Filter toggling\<close>

lemma find_append_single:
  "find P (xs @ [x]) = (case find P xs of None \<Rightarrow> (if P x then Some x else None) | Some y \<Rightarrow> Some y)"
  by (induction xs) auto

lemma find_filter_neg: "find P (filter (\<lambda>x. \<not> P x) xs) = None"
  by (induction xs) auto

lemma find_filter_other: "(\<And>x. Q x \<Longrightarrow> K x) \<Longrightarrow> find Q (filter K xs) = find Q xs"
  by (induction xs) auto

lemma find_map_keep:
  "(\<And>x. P (g x) = P x) \<Longrightarrow> find P (map g xs) = map_option g (find P xs)"
  by (induction xs) auto

lemma same_pair_set_mode [simp]: "same_pair c v (f\<lparr>mode := m\<rparr>) = same_pair c v f"
  by (simp add: same_pair_def)

lemma filter_pair_set_mode [simp]: "filter_pair (f\<lparr>mode := m\<rparr>) = filter_pair f"
  by (simp add: filter_pair_def)

lemma same_pair_iff: "same_pair c v f \<longleftrightarrow> filter_pair f = (c, v)"
  by (auto simp: same_pair_def filter_pair_def)

lemma distinct_filter_eq_le1: "distinct xs \<Longrightarrow> length (filter (\<lambda>p. p = a) xs) \<le> 1"
proof (induction xs)
  case Nil
  then show ?case by simp
next
  case (Cons x xs)
  have "a \<notin> set xs \<Longrightarrow> filter (\<lambda>p. p = a) xs = []"
    by (induction xs) auto
  with Cons show ?case by auto
qed

lemma find_SomeD: "find P xs = Some x \<Longrightarrow> P x"
  by (induction xs) (auto split: if_splits)

lemma find_same_pair_None: "find (same_pair cid val) fs = None \<longleftrightarrow> (cid, val) \<notin> filter_pair ` set fs"
  by (induction fs) (auto simp: same_pair_iff)

lemma one_per_pair_toggle:
  assumes "one_per_pair fs"
  shows "one_per_pair (toggleFilter cid val fs)"
proof (cases "find (same_pair cid val) fs")
  case None
  then have "(cid, val) \<notin> filter_pair ` set fs" by (simp add: find_same_pair_None)
  with assms None show ?thesis
    by (simp add: toggleFilter_def one_per_pair_def filter_pair_def)
next
  case (Some ex)
  have m: "map filter_pair (map (\<lambda>f. if same_pair cid val f then f\<lparr>mode := Exclude\<rparr> else f) fs) = map filter_pair fs"
    by (induction fs) auto
  have "one_per_pair (map (\<lambda>f. if same_pair cid val f then f\<lparr>mode := Exclude\<rparr> else f) fs)"
    unfolding one_per_pair_def m using assms by (simp add: one_per_pair_def)
  moreover have "one_per_pair (filter (\<lambda>f. \<not> same_pair cid val f) fs)"
    using assms by (simp add: one_per_pair_def distinct_map_filter)
  ultimately show ?thesis using Some
    by (simp add: toggleFilter_def)
qed

lemma filter_state_toggle_same:
  "filter_state (toggleFilter cid val fs) cid val =
     (case filter_state fs cid val of None \<Rightarrow> Some Include | Some Include \<Rightarrow> Some Exclude | Some Exclude \<Rightarrow> None)"
proof (cases "find (same_pair cid val) fs")
  case None
  then show ?thesis
    by (simp add: filter_state_def toggleFilter_def find_append_single same_pair_def)
next
  case (Some ex)
  show ?thesis
  proof (cases "mode ex")
    case Include
    have "find (same_pair cid val) (map (\<lambda>f. if same_pair cid val f then f\<lparr>mode := Exclude\<rparr> else f) fs)
            = map_option (\<lambda>f. if same_pair cid val f then f\<lparr>mode := Exclude\<rparr> else f) (find (same_pair cid val) fs)"
      by (rule find_map_keep) simp
    with Some Include find_SomeD [OF Some] show ?thesis
      by (simp add: filter_state_def toggleFilter_def)
  next
    case Exclude
    with Some show ?thesis
      by (simp add: filter_state_def toggleFilter_def find_filter_neg)
  qed
qed

lemma filter_state_toggle_other:
  assumes "(c, v) \<noteq> (cid, val)"
  shows "filter_state (toggleFilter cid val fs) c v = filter_state fs c v"
proof -
  have excl: "\<And>f. same_pair c v f \<Longrightarrow> \<not> same_pair cid val f"
    using assms by (auto simp: same_pair_def)
  have a: "find (same_pair c v) (fs @ [\<lparr>columnId = cid, flt_value = val, mode = Include\<rparr>]) = find (same_pair c v) fs"
    using assms by (auto simp: find_append_single same_pair_def split: option.splits)
  have b: "find (same_pair c v) (filter (\<lambda>f. \<not> same_pair cid val f) fs) = find (same_pair c v) fs"
    by (rule find_filter_other) (rule excl)
  have c: "map_option mode (find (same_pair c v) (map (\<lambda>f. if same_pair cid val f then f\<lparr>mode := Exclude\<rparr> else f) fs))
           = map_option mode (find (same_pair c v) fs)"
    using excl by (induction fs) auto
  show ?thesis
    using a b c by (auto simp: filter_state_def toggleFilter_def split: option.splits)
qed

text \<open>
  C7. The filter list starts empty and holds at most one filter per (columnId, value)
  pair: toggling (and removing) keeps that invariant, so at most one filter of the
  toggled pair exists afterwards. A toggle moves the pair from absent to include, from
  include to exclude and from exclude to absent, and leaves every other pair as it was.
\<close>

theorem toggleFilter_cycle:
  assumes "one_per_pair fs"
  shows "one_per_pair (toggleFilter cid val fs)
       \<and> one_per_pair (removeFilter cid val fs)
       \<and> length (filter (same_pair cid val) (toggleFilter cid val fs)) \<le> 1
       \<and> filter_state (toggleFilter cid val fs) cid val =
           (case filter_state fs cid val of
              None \<Rightarrow> Some Include
            | Some Include \<Rightarrow> Some Exclude
            | Some Exclude \<Rightarrow> None)
       \<and> (\<forall>c v. (c, v) \<noteq> (cid, val) \<longrightarrow>
             filter_state (toggleFilter cid val fs) c v = filter_state fs c v)"
proof -
  have inv: "one_per_pair (toggleFilter cid val fs)"
    using assms by (rule one_per_pair_toggle)
  have "length (filter (\<lambda>p. p = (cid, val)) (map filter_pair (toggleFilter cid val fs))) \<le> 1"
    using inv unfolding one_per_pair_def
    by (rule distinct_filter_eq_le1)
  moreover have "same_pair cid val = (\<lambda>f. filter_pair f = (cid, val))"
    by (simp add: fun_eq_iff same_pair_iff)
  ultimately have one: "length (filter (same_pair cid val) (toggleFilter cid val fs)) \<le> 1"
    by (simp add: filter_map comp_def)
  have rem: "one_per_pair (removeFilter cid val fs)"
    using assms by (simp add: one_per_pair_def removeFilter_def distinct_map_filter)
  show ?thesis
    using inv rem one filter_state_toggle_same filter_state_toggle_other by blast
qed

theorem toggleFilter_cycle_witness:
  "one_per_pair [\<lparr>columnId = ''c2'', flt_value = ''y'', mode = Exclude\<rparr>]
   \<and> filter_state (toggleFilter ''c1'' ''x'' [\<lparr>columnId = ''c2'', flt_value = ''y'', mode = Exclude\<rparr>])
         ''c1'' ''x'' = Some Include
   \<and> filter_state (toggleFilter ''c1'' ''x''
         (toggleFilter ''c1'' ''x'' [\<lparr>columnId = ''c2'', flt_value = ''y'', mode = Exclude\<rparr>]))
         ''c1'' ''x'' = Some Exclude
   \<and> filter_state (toggleFilter ''c1'' ''x'' (toggleFilter ''c1'' ''x''
         (toggleFilter ''c1'' ''x'' [\<lparr>columnId = ''c2'', flt_value = ''y'', mode = Exclude\<rparr>])))
         ''c1'' ''x'' = None
   \<and> filter_state (toggleFilter ''c1'' ''x'' [\<lparr>columnId = ''c2'', flt_value = ''y'', mode = Exclude\<rparr>])
         ''c2'' ''y'' = Some Exclude
   \<and> one_per_pair (toggleFilter ''c1'' ''x'' [\<lparr>columnId = ''c2'', flt_value = ''y'', mode = Exclude\<rparr>])"
proof -
  let ?fs = "[\<lparr>columnId = ''c2'', flt_value = ''y'', mode = Exclude\<rparr>]"
  have h0: "one_per_pair ?fs" by (simp add: one_per_pair_def)
  note t1 = toggleFilter_cycle [OF h0, of "''c1''" "''x''"]
  note t2 = toggleFilter_cycle [OF t1 [THEN conjunct1], of "''c1''" "''x''"]
  note t3 = toggleFilter_cycle [OF t2 [THEN conjunct1], of "''c1''" "''x''"]
  have s0: "filter_state ?fs ''c1'' ''x'' = None" "filter_state ?fs ''c2'' ''y'' = Some Exclude"
    by (simp_all add: filter_state_def same_pair_def)
  have o: "filter_state (toggleFilter ''c1'' ''x'' ?fs) ''c2'' ''y'' = filter_state ?fs ''c2'' ''y''"
    using t1 by simp
  show ?thesis using h0 t1 t2 t3 s0 o by simp
qed

subsection \<open>Column value statistics\<close>










subsection \<open>The mutation choke point\<close>

lemma updateActiveTable_nth:
  assumes "i < length fs"
  shows "updateActiveTable a b now upd fs ! i =
           (if Some (fld_id (fs ! i)) = a
            then (fs ! i)\<lparr>tables := map (stamp now upd b) (tables (fs ! i)), fld_updatedAt := now\<rparr>
            else fs ! i)"
  using assms by (simp add: updateActiveTable_def stamp_def)

lemma updateActiveTable_no_folder:
  assumes "activeFolder a fs = None"
  shows "updateActiveTable a b now upd fs = fs"
proof -
  have "\<forall>f \<in> set fs. Some (fld_id f) \<noteq> a"
    using assms by (simp add: activeFolder_def find_None_iff)
  then show ?thesis
    by (simp add: updateActiveTable_def map_idI)
qed

lemma updateActiveTable_no_table:
  assumes "touched a b fs = []"
  shows "updateActiveTable a b now upd fs =
           map (\<lambda>f. if Some (fld_id f) = a then f\<lparr>fld_updatedAt := now\<rparr> else f) fs"
proof -
  have "\<forall>f \<in> set fs. Some (fld_id f) = a \<longrightarrow> (\<forall>t \<in> set (tables f). Some (tbl_id t) \<noteq> b)"
    using assms by (auto simp: touched_def filter_empty_conv)
  then have "\<forall>f \<in> set fs. Some (fld_id f) = a \<longrightarrow>
       map (\<lambda>t. if Some (tbl_id t) = b then (upd t)\<lparr>tbl_updatedAt := now\<rparr> else t) (tables f) = tables f"
    by (simp add: map_idI)
  then show ?thesis
    by (auto simp: updateActiveTable_def)
qed

lemma filter_eq_singleton:
  assumes "distinct (map g xs)" "find (\<lambda>x. Some (g x) = k) xs = Some y"
  shows "filter (\<lambda>x. Some (g x) = k) xs = [y]"
  using assms
proof (induction xs)
  case Nil
  then show ?case by simp
next
  case (Cons x xs)
  show ?case
  proof (cases "Some (g x) = k")
    case True
    then have "\<forall>z \<in> set xs. Some (g z) \<noteq> k" using Cons.prems(1) by (auto simp: image_iff)
    then have "filter (\<lambda>x. Some (g x) = k) xs = []" by (simp add: filter_empty_conv)
    with True Cons.prems(2) show ?thesis by simp
  next
    case False
    with Cons show ?thesis by simp
  qed
qed

lemma touched_unique:
  assumes "unique_ids fs" "activeTable a b fs = Some t"
  shows "touched a b fs = [t]"
proof -
  from assms(2) obtain f where f: "activeFolder a fs = Some f"
    and t: "find (\<lambda>t. Some (tbl_id t) = b) (tables f) = Some t"
    by (auto simp: activeTable_def split: option.splits)
  have "filter (\<lambda>f. Some (fld_id f) = a) fs = [f]"
    using assms(1) f by (intro filter_eq_singleton) (simp_all add: unique_ids_def activeFolder_def)
  moreover have "f \<in> set fs"
    using f by (auto simp: activeFolder_def find_Some_iff)
  then have "filter (\<lambda>t. Some (tbl_id t) = b) (tables f) = [t]"
    using assms(1) t by (intro filter_eq_singleton) (simp_all add: unique_ids_def)
  ultimately show ?thesis by (simp add: touched_def)
qed

text \<open>
  C9, as amended. The helper keeps the number and order of folders; a folder whose id is
  not the active one is returned unchanged; in the folder with the active id every table
  whose id is not the active one is unchanged, the table with the active id becomes the
  updater's result stamped with \<open>now\<close>, and the folder is stamped with \<open>now\<close>. With
  unique ids exactly one table is transformed. When no folder has the active id the
  collection is returned unchanged; when the folder exists but the table does not, no
  table changes and only the active folder's \<open>updatedAt\<close> is refreshed. The model is a
  total function: nothing is raised.
\<close>

theorem updateActiveTable_frame:
  "length (updateActiveTable a b now upd fs) = length fs
   \<and> (\<forall>i < length fs.
        updateActiveTable a b now upd fs ! i =
          (if Some (fld_id (fs ! i)) = a
           then (fs ! i)\<lparr>tables := map (stamp now upd b) (tables (fs ! i)), fld_updatedAt := now\<rparr>
           else fs ! i))
   \<and> (\<forall>t. Some (tbl_id t) \<noteq> b \<longrightarrow> stamp now upd b t = t)
   \<and> (\<forall>t. Some (tbl_id t) = b \<longrightarrow> stamp now upd b t = (upd t)\<lparr>tbl_updatedAt := now\<rparr>)
   \<and> (\<forall>t. unique_ids fs \<and> activeTable a b fs = Some t \<longrightarrow> touched a b fs = [t])
   \<and> (activeFolder a fs = None \<longrightarrow> updateActiveTable a b now upd fs = fs)
   \<and> (touched a b fs = [] \<longrightarrow>
        updateActiveTable a b now upd fs =
          map (\<lambda>f. if Some (fld_id f) = a then f\<lparr>fld_updatedAt := now\<rparr> else f) fs)"
proof -
  have "length (updateActiveTable a b now upd fs) = length fs"
    by (simp add: updateActiveTable_def)
  then show ?thesis
    using updateActiveTable_nth [of _ fs a b now upd] touched_unique [of fs a b]
      updateActiveTable_no_folder [of a fs b now upd] updateActiveTable_no_table [of a b fs now upd]
    by (simp add: stamp_def)
qed

theorem updateActiveTable_frame_witness:
  "unique_ids [folder1, folder2]
   \<and> activeTable (Some ''f2'') (Some ''t1'') [folder1, folder2] = Some table1
   \<and> touched (Some ''f2'') (Some ''t1'') [folder1, folder2] = [table1]
   \<and> updateActiveTable (Some ''f2'') (Some ''t1'') 9 id [folder1, folder2] ! 0 = folder1
   \<and> updateActiveTable (Some ''f2'') (Some ''t1'') 9 id [folder1, folder2] ! 1
         = folder2\<lparr>tables := [table1\<lparr>tbl_updatedAt := 9\<rparr>], fld_updatedAt := 9\<rparr>
   \<and> activeFolder (Some ''f0'') [folder1, folder2] = None
   \<and> updateActiveTable (Some ''f0'') (Some ''t1'') 9 id [folder1, folder2] = [folder1, folder2]
   \<and> touched (Some ''f2'') (Some ''t9'') [folder1, folder2] = []
   \<and> updateActiveTable (Some ''f2'') (Some ''t9'') 9 id [folder1, folder2]
         = [folder1, folder2\<lparr>fld_updatedAt := 9\<rparr>]"
proof -
  have u: "unique_ids [folder1, folder2]"
    by (simp add: unique_ids_def folder1_def folder2_def)
  have t: "activeTable (Some ''f2'') (Some ''t1'') [folder1, folder2] = Some table1"
    by (simp add: activeTable_def activeFolder_def folder1_def folder2_def table1_def)
  have n: "activeFolder (Some ''f0'') [folder1, folder2] = None"
    by (simp add: activeFolder_def folder1_def folder2_def)
  have e: "touched (Some ''f2'') (Some ''t9'') [folder1, folder2] = []"
    by (simp add: touched_def folder1_def folder2_def table1_def)
  have s: "stamp 9 id (Some ''t1'') table1 = table1\<lparr>tbl_updatedAt := 9\<rparr>"
    by (simp add: stamp_def table1_def)
  have i: "fld_id folder1 = ''f1''" "fld_id folder2 = ''f2''" "tables folder2 = [table1]"
    by (simp_all add: folder1_def folder2_def)
  show ?thesis
    using updateActiveTable_frame [of "Some ''f2''" "Some ''t1''" 9 id "[folder1, folder2]"]
      updateActiveTable_frame [of "Some ''f0''" "Some ''t1''" 9 id "[folder1, folder2]"]
      updateActiveTable_frame [of "Some ''f2''" "Some ''t9''" 9 id "[folder1, folder2]"]
      u t n e s i
    by simp
qed

text \<open>
  The statement that a missing table makes the helper a no-op fails: with the active
  folder present and the active table missing, the helper refreshes the folder's
  \<open>updatedAt\<close>.
\<close>

theorem updateActiveTable_noop_counterexample:
  "activeFolder (Some ''f1'') [folder1] = Some folder1
   \<and> activeTable (Some ''f1'') (Some ''t9'') [folder1] = None
   \<and> updateActiveTable (Some ''f1'') (Some ''t9'') 5 id [folder1] \<noteq> [folder1]
   \<and> fld_updatedAt (hd (updateActiveTable (Some ''f1'') (Some ''t9'') 5 id [folder1])) = 5
   \<and> fld_updatedAt folder1 = 1"
  by (simp add: activeFolder_def activeTable_def updateActiveTable_def folder1_def)

subsection \<open>Column deletion\<close>

text \<open>
  C10. When the active table designates \<open>colId\<close> as its identifier column, the request to
  delete that column returns the collection as it was: no column, row or timestamp
  changes.
\<close>

theorem handleDeleteColumn_id_column:
  assumes "activeTable a b fs = Some t" and "autoIdColumnId t = Some colId"
  shows "handleDeleteColumn a b now colId fs = fs"
  using assms by (simp add: handleDeleteColumn_def)

theorem handleDeleteColumn_id_column_witness:
  "activeTable (Some ''f2'') (Some ''t1'') [folder1, folder2] = Some table1
   \<and> autoIdColumnId table1 = Some ''col_1_id''
   \<and> handleDeleteColumn (Some ''f2'') (Some ''t1'') 9 ''col_1_id'' [folder1, folder2] = [folder1, folder2]"
proof -
  have t: "activeTable (Some ''f2'') (Some ''t1'') [folder1, folder2] = Some table1"
    by (simp add: activeTable_def activeFolder_def folder1_def folder2_def table1_def)
  have c: "autoIdColumnId table1 = Some ''col_1_id''"
    by (simp add: table1_def)
  show ?thesis
    using handleDeleteColumn_id_column [OF t c, of 9] t c by simp
qed

end
